theory Spec2Isabelle
  imports Complex_Main
begin

section \<open>Cosmic Voyager: the per-frame simulation\<close>

text \<open>
  A shallow embedding of the game's types, its geometry utilities and the frame callback
  \<^verbatim>\<open>updateAndDraw\<close> of the \<^verbatim>\<open>App\<close> component, with the helpers it closes over
  (\<^verbatim>\<open>createExplosion\<close>, \<^verbatim>\<open>resetGame\<close>, \<^verbatim>\<open>handlePlayerControls\<close>).

  Conventions of the embedding.
  \<^item> A JavaScript \<^verbatim>\<open>number\<close> is a \<^typ>\<open>real\<close>: rounding, infinities and NaN of IEEE doubles
    are not modelled. \<^verbatim>\<open>Math.pow(v, 2)\<close> and \<^verbatim>\<open>v ** 2\<close> are \<open>v\<^sup>2\<close>. The two divisions of the
    code never have a zero divisor: \<^verbatim>\<open>speed\<close> exceeds 5 where the velocity is divided by it,
    and \<^verbatim>\<open>maxLife\<close> is 1 or 0.5 for every particle the code creates.
  \<^item> The React state \<^verbatim>\<open>score\<close> is a field of the state. The callback is created anew whenever
    the score changes, so the score it reads is that of the state at the start of the tick;
    the updates passed to \<^verbatim>\<open>setScore\<close> during a tick are applied to the field in order.
  \<^item> Objects held in the refs are values; every in-place mutation of the source returns the
    updated value. No claim depends on aliasing: positions are copied when an object is
    created from another one.
  \<^item> The calls that read the outside world are inputs of a tick: \<^verbatim>\<open>Math.random()\<close> is a
    sequence of reals, consumed through a counter kept in the state; \<^verbatim>\<open>Date.now()\<close> and
    \<^verbatim>\<open>performance.now()\<close> are taken to be constant during a tick; the held keys are a set of
    key codes.
  \<^item> Canvas drawing and sound playback change nothing the simulation reads and are left out,
    except for the \<^verbatim>\<open>Math.random()\<close> calls made while a meteor is drawn.
  \<^item> An identifier built by a template literal is kept as its components: two identifiers are
    equal iff they have the same prefix and the same numbers.
\<close>

subsection \<open>Types\<close>

text \<open>The fields \<^verbatim>\<open>x\<close> and \<^verbatim>\<open>y\<close> of \<^verbatim>\<open>Vector2D\<close> are called \<open>vx\<close> and \<open>vy\<close>.\<close>

record Vector2D =
  vx :: real
  vy :: real

datatype ident =
    PlayerId                      \<comment> \<open>\<^verbatim>\<open>'player'\<close>\<close>
  | EnemyId real real             \<comment> \<open>\<^verbatim>\<open>`e_${Date.now()}_${Math.random()}`\<close>\<close>
  | LaserId real                  \<comment> \<open>\<^verbatim>\<open>`l_${now}`\<close>\<close>
  | EnemyLaserId real real        \<comment> \<open>\<^verbatim>\<open>`el_${Date.now()}_${Math.random()}`\<close>\<close>
  | ParticleId real real          \<comment> \<open>\<^verbatim>\<open>`p_${Date.now()}_${Math.random()}`\<close>\<close>
  | ThrustParticleId real real    \<comment> \<open>\<^verbatim>\<open>`pt_${Date.now()}_${Math.random()}`\<close>\<close>

record GameObject =
  ident :: ident
  position :: Vector2D
  velocity :: Vector2D
  radius :: real

record Player = GameObject +
  health :: real
  maxHealth :: real
  rotation :: real

datatype EnemyType = Meteor | Saucer | BlackHole | Mothership

text \<open>\<^verbatim>\<open>Enemy\<close> has the fields \<^verbatim>\<open>type\<close>, \<^verbatim>\<open>health\<close>, \<^verbatim>\<open>maxHealth\<close> and the optional
  \<^verbatim>\<open>rotation\<close>; they carry the prefix \<open>e\<close> here, as a field name belongs to one record.\<close>

record Enemy = GameObject +
  etype :: EnemyType
  ehealth :: real
  emaxHealth :: real
  erotation :: "real option"

record Laser = GameObject +
  isPlayerLaser :: bool

record Particle = GameObject +
  life :: real
  maxLife :: real
  color :: string
  startSize :: real

datatype GameStatus = StartScreen | Playing | GameOver

text \<open>
  The mutable state of the component: the two React states, the refs, the viewport
  \<^verbatim>\<open>dimensions.current\<close>, the callbacks registered with \<^verbatim>\<open>setTimeout\<close> and not yet run (the
  delay in milliseconds and the status the callback sets), and the number of
  \<^verbatim>\<open>Math.random()\<close> calls made so far.
\<close>

record World =
  gameStatus :: GameStatus
  score :: real
  playerRef :: "Player option"
  enemiesRef :: "Enemy list"
  lasersRef :: "Laser list"
  particlesRef :: "Particle list"
  lastShotTimeRef :: real
  width :: real
  height :: real
  timeouts :: "(real \<times> GameStatus) list"
  randomCalls :: nat

text \<open>What a tick reads from outside the component.\<close>

record Env =
  canvasReady :: bool             \<comment> \<open>\<^verbatim>\<open>canvasRef.current\<close> and its 2d context are non-null\<close>
  keysPressed :: "string set"
  performanceNow :: real
  dateNow :: real
  mathRandom :: "nat \<Rightarrow> real"    \<comment> \<open>the n-th value returned by \<^verbatim>\<open>Math.random()\<close>\<close>

text \<open>The only fault the frame callback could raise: reading a field of \<^verbatim>\<open>null\<close>.\<close>

datatype fault = TypeError

subsection \<open>Constants\<close>

definition PLAYER_SIZE :: real where "PLAYER_SIZE = 20"
definition PLAYER_THRUST :: real where "PLAYER_THRUST = 0.1"
definition PLAYER_TURN_SPEED :: real where "PLAYER_TURN_SPEED = 0.1"
definition PLAYER_MAX_SPEED :: real where "PLAYER_MAX_SPEED = 5"
definition PLAYER_FRICTION :: real where "PLAYER_FRICTION = 0.99"
definition PLAYER_LASER_SPEED :: real where "PLAYER_LASER_SPEED = 7"
definition PLAYER_SHOOT_COOLDOWN :: real where "PLAYER_SHOOT_COOLDOWN = 200"
definition PLAYER_MAX_HEALTH :: real where "PLAYER_MAX_HEALTH = 100"
definition ENEMY_LASER_SPEED :: real where "ENEMY_LASER_SPEED = 5"

subsection \<open>Geometry utilities\<close>

definition distance :: "Vector2D \<Rightarrow> Vector2D \<Rightarrow> real" where
  "distance p1 p2 = sqrt ((vx p1 - vx p2)\<^sup>2 + (vy p1 - vy p2)\<^sup>2)"

definition checkCollision ::
  "'a GameObject_scheme \<Rightarrow> 'b GameObject_scheme \<Rightarrow> bool" where
  "checkCollision obj1 obj2 \<longleftrightarrow>
     distance (position obj1) (position obj2) < radius obj1 + radius obj2"

text \<open>\<^verbatim>\<open>randomBetween\<close> makes one call of \<^verbatim>\<open>Math.random()\<close>; \<open>r\<close> is the value it returned.\<close>

definition randomBetween :: "real \<Rightarrow> real \<Rightarrow> real \<Rightarrow> real" where
  "randomBetween r lo hi = r * (hi - lo) + lo"

subsection \<open>Reset\<close>

definition resetGame :: "World \<Rightarrow> World" where
  "resetGame s = s\<lparr>
     playerRef := Some \<lparr>
       ident = PlayerId,
       position = \<lparr>vx = width s / 2, vy = height s / 2\<rparr>,
       velocity = \<lparr>vx = 0, vy = 0\<rparr>,
       radius = PLAYER_SIZE / 2,
       health = PLAYER_MAX_HEALTH,
       maxHealth = PLAYER_MAX_HEALTH,
       rotation = - pi / 2\<rparr>,
     enemiesRef := [],
     lasersRef := [],
     particlesRef := [],
     score := 0\<rparr>"

definition startGame :: "World \<Rightarrow> World" where
  "startGame s = (resetGame s)\<lparr>gameStatus := Playing\<rparr>"

subsection \<open>Motion\<close>

text \<open>\<^verbatim>\<open>updatePosition\<close> closes over the viewport \<open>w\<close>, \<open>h\<close> read at the start of the tick.
  The four tests run in sequence, each on the coordinate the previous one left.\<close>

definition updatePosition :: "real \<Rightarrow> real \<Rightarrow> 'a GameObject_scheme \<Rightarrow> 'a GameObject_scheme" where
  "updatePosition w h obj =
     (let r = radius obj;
          x0 = vx (position obj) + vx (velocity obj);
          y0 = vy (position obj) + vy (velocity obj);
          x1 = (if x0 < - r then w + r else x0);
          x2 = (if x1 > w + r then - r else x1);
          y1 = (if y0 < - r then h + r else y0);
          y2 = (if y1 > h + r then - r else y1)
      in obj\<lparr>position := \<lparr>vx = x2, vy = y2\<rparr>\<rparr>)"

subsection \<open>Faults\<close>

text \<open>A step that may read a field of \<^verbatim>\<open>null\<close> returns \<open>Inl TypeError\<close> there; \<open>bindF\<close> runs
  the rest of the callback only when the step returned normally.\<close>

definition bindF :: "fault + 'a \<Rightarrow> ('a \<Rightarrow> fault + 'b) \<Rightarrow> fault + 'b" where
  "bindF m f = (case m of Inl e \<Rightarrow> Inl e | Inr v \<Rightarrow> f v)"

subsection \<open>Explosions\<close>

text \<open>
  \<^verbatim>\<open>for (let i = 0; i < count; i++)\<close> with a \<^verbatim>\<open>count\<close> that need not be an integer (an
  enemy's radius is passed). Each round calls \<^verbatim>\<open>Math.random()\<close> five times, in the order the
  object literal evaluates them: id, velocity.x, velocity.y, radius, startSize.
\<close>

function createExplosionFrom ::
  "Env \<Rightarrow> Vector2D \<Rightarrow> real \<Rightarrow> string \<Rightarrow> real \<Rightarrow> nat \<Rightarrow> World \<Rightarrow> World" where
  "createExplosionFrom env pos count col sz i s =
     (if real i < count then
        let k = randomCalls s;
            p = \<lparr>ident = ParticleId (dateNow env) (mathRandom env k),
                 position = \<lparr>vx = vx pos, vy = vy pos\<rparr>,
                 velocity = \<lparr>vx = randomBetween (mathRandom env (k + 1)) (- 3) 3,
                             vy = randomBetween (mathRandom env (k + 2)) (- 3) 3\<rparr>,
                 radius = mathRandom env (k + 3) * sz,
                 life = 1,
                 maxLife = 1,
                 color = col,
                 startSize = mathRandom env (k + 4) * sz + 1\<rparr>
        in createExplosionFrom env pos count col sz (Suc i)
             (s\<lparr>particlesRef := particlesRef s @ [p], randomCalls := k + 5\<rparr>)
      else s)"
  by pat_completeness auto
termination
proof (relation "measure (\<lambda>(env, pos, count, col, sz, i, s). nat \<lceil>count\<rceil> - i)")
  show "wf (measure (\<lambda>(env, pos, count, col, sz, i, s). nat \<lceil>count\<rceil> - i))"
    by simp
next
  fix env :: Env and pos :: Vector2D and count :: real and col :: string and sz :: real
    and i :: nat and s :: World and k p
  assume "real i < count"
  then have "int i < \<lceil>count\<rceil>"
    by (simp add: less_ceiling_iff)
  then have "i < nat \<lceil>count\<rceil>"
    by linarith
  then show "((env, pos, count, col, sz, Suc i,
                s\<lparr>particlesRef := particlesRef s @ [p], randomCalls := k + 5\<rparr>),
              (env, pos, count, col, sz, i, s))
             \<in> measure (\<lambda>(env, pos, count, col, sz, i, s). nat \<lceil>count\<rceil> - i)"
    by simp
qed

definition createExplosion :: "Env \<Rightarrow> Vector2D \<Rightarrow> real \<Rightarrow> string \<Rightarrow> real \<Rightarrow> World \<Rightarrow> World" where
  "createExplosion env pos count col sz s = createExplosionFrom env pos count col sz 0 s"

subsection \<open>Player controls\<close>

text \<open>Indexing the three thruster colours; outside 0..2 JavaScript yields \<^verbatim>\<open>undefined\<close>.\<close>

definition thrustColor :: "int \<Rightarrow> string" where
  "thrustColor i =
     (if i = 0 then ''#ffc83d'' else if i = 1 then ''#ff7800''
      else if i = 2 then ''#ffffff'' else ''undefined'')"

text \<open>One thruster particle; \<open>k\<close> is the number of \<^verbatim>\<open>Math.random()\<close> calls made before it.
  \<open>player\<close> already carries the velocity increased by the thrust.\<close>

definition thrustParticle :: "Env \<Rightarrow> Player \<Rightarrow> nat \<Rightarrow> Particle" where
  "thrustParticle env player k =
     (let angle = rotation player + pi + randomBetween (mathRandom env k) (- 0.3) 0.3
      in \<lparr>ident = ThrustParticleId (dateNow env) (mathRandom env (k + 1)),
          position = \<lparr>vx = vx (position player), vy = vy (position player)\<rparr>,
          velocity = \<lparr>vx = vx (velocity player) + cos angle * 2,
                      vy = vy (velocity player) + sin angle * 2\<rparr>,
          radius = randomBetween (mathRandom env (k + 2)) 1 3,
          life = 0.5,
          maxLife = 0.5,
          color = thrustColor \<lfloor>mathRandom env (k + 3) * 3\<rfloor>,
          startSize = randomBetween (mathRandom env (k + 4)) 2 4\<rparr>)"

definition handlePlayerControls :: "Env \<Rightarrow> World \<Rightarrow> World" where
  "handlePlayerControls env s =
     (case playerRef s of
        None \<Rightarrow> s
      | Some p0 \<Rightarrow>
         (let keys = keysPressed env;
              thrust = (''ArrowUp'' \<in> keys \<or> ''KeyW'' \<in> keys);
              p1 = (if thrust
                    then p0\<lparr>velocity :=
                           \<lparr>vx = vx (velocity p0) + cos (rotation p0) * PLAYER_THRUST,
                            vy = vy (velocity p0) + sin (rotation p0) * PLAYER_THRUST\<rparr>\<rparr>
                    else p0);
              k = randomCalls s;
              s1 = (if thrust
                    then s\<lparr>particlesRef := particlesRef s @
                              [thrustParticle env p1 k, thrustParticle env p1 (k + 5)],
                           randomCalls := k + 10\<rparr>
                    else s);
              p2 = (if ''ArrowLeft'' \<in> keys \<or> ''KeyA'' \<in> keys
                    then p1\<lparr>rotation := rotation p1 - PLAYER_TURN_SPEED\<rparr> else p1);
              p3 = (if ''ArrowRight'' \<in> keys \<or> ''KeyD'' \<in> keys
                    then p2\<lparr>rotation := rotation p2 + PLAYER_TURN_SPEED\<rparr> else p2);
              speed = sqrt ((vx (velocity p3))\<^sup>2 + (vy (velocity p3))\<^sup>2);
              p4 = (if speed > PLAYER_MAX_SPEED
                    then p3\<lparr>velocity :=
                           \<lparr>vx = (vx (velocity p3) / speed) * PLAYER_MAX_SPEED,
                            vy = (vy (velocity p3) / speed) * PLAYER_MAX_SPEED\<rparr>\<rparr>
                    else p3);
              p5 = p4\<lparr>velocity := \<lparr>vx = vx (velocity p4) * PLAYER_FRICTION,
                                     vy = vy (velocity p4) * PLAYER_FRICTION\<rparr>\<rparr>;
              now = performanceNow env;
              s2 = (if ''Space'' \<in> keys \<and> now - lastShotTimeRef s1 > PLAYER_SHOOT_COOLDOWN
                    then s1\<lparr>lastShotTimeRef := now,
                            lasersRef := lasersRef s1 @
                              [\<lparr>ident = LaserId now,
                                position = \<lparr>vx = vx (position p5), vy = vy (position p5)\<rparr>,
                                velocity = \<lparr>vx = cos (rotation p5) * PLAYER_LASER_SPEED,
                                            vy = sin (rotation p5) * PLAYER_LASER_SPEED\<rparr>,
                                radius = 2,
                                isPlayerLaser = True\<rparr>]\<rparr>
                    else s1)
          in s2\<lparr>playerRef := Some p5\<rparr>))"

subsection \<open>The frame callback, phase by phase\<close>

text \<open>Player: controls, then motion. \<^verbatim>\<open>updatePosition(playerRef.current)\<close> reads the ref again
  after the controls have run.\<close>

definition updatePlayer :: "Env \<Rightarrow> real \<Rightarrow> real \<Rightarrow> World \<Rightarrow> fault + World" where
  "updatePlayer env w h s =
     (if playerRef s \<noteq> None then
        (let s1 = handlePlayerControls env s
         in case playerRef s1 of
              None \<Rightarrow> Inl TypeError
            | Some p \<Rightarrow> Inr (s1\<lparr>playerRef := Some (updatePosition w h p)\<rparr>))
      else Inr s)"

text \<open>Lasers: those not strictly inside the viewport are dropped, the others are moved.\<close>

definition inViewport :: "real \<Rightarrow> real \<Rightarrow> 'a GameObject_scheme \<Rightarrow> bool" where
  "inViewport w h l \<longleftrightarrow>
     vx (position l) > 0 \<and> vx (position l) < w \<and> vy (position l) > 0 \<and> vy (position l) < h"

definition updateLasers :: "real \<Rightarrow> real \<Rightarrow> World \<Rightarrow> World" where
  "updateLasers w h s =
     s\<lparr>lasersRef := map (updatePosition w h) (filter (inViewport w h) (lasersRef s))\<rparr>"

text \<open>Particles: those with no life left are dropped; the others age, move, and shrink.\<close>

definition updateParticle :: "real \<Rightarrow> real \<Rightarrow> real \<Rightarrow> Particle \<Rightarrow> Particle" where
  "updateParticle deltaTime w h p =
     (let p1 = p\<lparr>life := life p - deltaTime / 1000\<rparr>;
          p2 = updatePosition w h p1
      in p2\<lparr>radius := startSize p2 * (life p2 / maxLife p2)\<rparr>)"

definition updateParticles :: "real \<Rightarrow> real \<Rightarrow> real \<Rightarrow> World \<Rightarrow> World" where
  "updateParticles deltaTime w h s =
     s\<lparr>particlesRef :=
         map (updateParticle deltaTime w h) (filter (\<lambda>p. life p > 0) (particlesRef s))\<rparr>"

text \<open>Enemies: motion, then drawing. Drawing a meteor advances its spin
  (\<^verbatim>\<open>(e.rotation || 0) + 0.01\<close>) and calls \<^verbatim>\<open>Math.random()\<close> six times for its outline.\<close>

definition updateEnemy :: "real \<Rightarrow> real \<Rightarrow> Enemy \<Rightarrow> Enemy" where
  "updateEnemy w h e =
     (let e1 = updatePosition w h e
      in case etype e1 of
           Meteor \<Rightarrow> e1\<lparr>erotation := Some ((case erotation e1 of None \<Rightarrow> 0 | Some r \<Rightarrow> r) + 0.01)\<rparr>
         | Saucer \<Rightarrow> e1
         | Mothership \<Rightarrow> e1
         | BlackHole \<Rightarrow> e1)"

definition drawRandomCalls :: "Enemy \<Rightarrow> nat" where
  "drawRandomCalls e = (if etype e = Meteor then 6 else 0)"

definition updateEnemies :: "real \<Rightarrow> real \<Rightarrow> World \<Rightarrow> World" where
  "updateEnemies w h s =
     s\<lparr>enemiesRef := map (updateEnemy w h) (enemiesRef s),
       randomCalls := randomCalls s + sum_list (map drawRandomCalls (enemiesRef s))\<rparr>"

text \<open>Spawner. \<^verbatim>\<open>Math.random()\<close> is called for the type roll, the meteor radius, the side,
  the coordinate along the side, the id and the two velocity components, in this order.\<close>

definition spawnEnemy :: "Env \<Rightarrow> real \<Rightarrow> real \<Rightarrow> World \<Rightarrow> World" where
  "spawnEnemy env w h s =
     (if real (length (enemiesRef s)) < 5 + of_int \<lfloor>score s / 500\<rfloor> then
        (let k = randomCalls s;
             typeRoll = mathRandom env k;
             radius0 = randomBetween (mathRandom env (k + 1)) 15 40;
             (type, rad, hp) =
               (if score s > 1000 \<and> typeRoll > 0.95 then (Mothership, 60, 50)
                else if score s > 200 \<and> typeRoll > 0.7 then (Saucer, 20, 10)
                else (Meteor, radius0, radius0 / 2));
             side = \<lfloor>mathRandom env (k + 2) * 4\<rfloor>;
             c = mathRandom env (k + 3);
             pos = (if side = 0 then \<lparr>vx = randomBetween c 0 w, vy = - rad\<rparr>
                    else if side = 1 then \<lparr>vx = w + rad, vy = randomBetween c 0 h\<rparr>
                    else if side = 2 then \<lparr>vx = randomBetween c 0 w, vy = h + rad\<rparr>
                    else \<lparr>vx = - rad, vy = randomBetween c 0 h\<rparr>)
         in s\<lparr>enemiesRef := enemiesRef s @
                 [\<lparr>ident = EnemyId (dateNow env) (mathRandom env (k + 4)),
                   position = pos,
                   velocity = \<lparr>vx = randomBetween (mathRandom env (k + 5)) (- 1) 1,
                               vy = randomBetween (mathRandom env (k + 6)) (- 1) 1\<rparr>,
                   radius = rad,
                   etype = type,
                   ehealth = hp,
                   emaxHealth = hp,
                   erotation = None\<rparr>],
               randomCalls := k + 7\<rparr>)
      else s)"

text \<open>\<^verbatim>\<open>Math.atan2(y, x)\<close>, as the angle of the point \<open>(x, y)\<close> in \<open>(-\<pi>, \<pi>]\<close>.\<close>

definition Math_atan2 :: "real \<Rightarrow> real \<Rightarrow> real" where
  "Math_atan2 y x =
     (if x > 0 then arctan (y / x)
      else if x < 0 \<and> y \<ge> 0 then arctan (y / x) + pi
      else if x < 0 then arctan (y / x) - pi
      else if y > 0 then pi / 2
      else if y < 0 then - pi / 2
      else 0)"

text \<open>
  Enemy fire, over the enemies in order. A saucer or mothership always draws one random
  number; when it is below 0.01 and the player ref is set, the player's position is read
  through the ref and a second random number goes into the laser's id.
\<close>

fun enemyAI :: "Env \<Rightarrow> Enemy list \<Rightarrow> World \<Rightarrow> fault + World" where
  "enemyAI env [] s = Inr s"
| "enemyAI env (e # es) s =
     (if etype e = Saucer \<or> etype e = Mothership then
        (let k = randomCalls s;
             s1 = s\<lparr>randomCalls := k + 1\<rparr>
         in if mathRandom env k < 0.01 \<and> playerRef s1 \<noteq> None then
              (case playerRef s1 of
                 None \<Rightarrow> Inl TypeError
               | Some p \<Rightarrow>
                  (let angle = Math_atan2 (vy (position p) - vy (position e))
                                          (vx (position p) - vx (position e))
                   in enemyAI env es
                        (s1\<lparr>lasersRef := lasersRef s1 @
                               [\<lparr>ident = EnemyLaserId (dateNow env) (mathRandom env (k + 1)),
                                 position = \<lparr>vx = vx (position e), vy = vy (position e)\<rparr>,
                                 velocity = \<lparr>vx = cos angle * ENEMY_LASER_SPEED,
                                             vy = sin angle * ENEMY_LASER_SPEED\<rparr>,
                                 radius = 3,
                                 isPlayerLaser = False\<rparr>],
                            randomCalls := k + 2\<rparr>)))
            else enemyAI env es s1)
      else enemyAI env es s)"

text \<open>
  Player lasers against one enemy: the inner loop over the lasers. Its state is the enemy
  (whose health the hits lower), the flag \<^verbatim>\<open>enemyDestroyed\<close>, the list \<^verbatim>\<open>newLasers\<close> and the
  world (explosions add particles).
\<close>

fun lasersVsEnemy ::
  "Env \<Rightarrow> Laser list \<Rightarrow> Enemy \<times> bool \<times> Laser list \<times> World \<Rightarrow> Enemy \<times> bool \<times> Laser list \<times> World" where
  "lasersVsEnemy env [] st = st"
| "lasersVsEnemy env (laser # ls) (enemy, enemyDestroyed, newLasers, s) =
     (if isPlayerLaser laser \<and> checkCollision laser enemy then
        (let enemy1 = enemy\<lparr>ehealth := ehealth enemy - 5\<rparr>;
             s1 = createExplosion env (position laser) 5 ''#00f2ff'' 2 s
         in lasersVsEnemy env ls
              (enemy1, (if ehealth enemy1 \<le> 0 then True else enemyDestroyed), newLasers, s1))
      else lasersVsEnemy env ls (enemy, enemyDestroyed, newLasers @ [laser], s))"

text \<open>The outer loop over the enemies; its state is \<^verbatim>\<open>newEnemies\<close> and the world. The score
  update \<^verbatim>\<open>setScore(s => s + ...)\<close> is applied to the score of the state.\<close>

fun lasersVsEnemies :: "Env \<Rightarrow> Enemy list \<Rightarrow> Enemy list \<times> World \<Rightarrow> Enemy list \<times> World" where
  "lasersVsEnemies env [] st = st"
| "lasersVsEnemies env (enemy # es) (newEnemies, s) =
     (case lasersVsEnemy env (lasersRef s) (enemy, False, [], s) of
        (enemy1, enemyDestroyed, newLasers, s1) \<Rightarrow>
          (let s2 = s1\<lparr>lasersRef := newLasers\<rparr>
           in if enemyDestroyed then
                (let s3 = createExplosion env (position enemy1) (radius enemy1)
                            (if etype enemy1 = Saucer then ''#8338ec'' else ''#a9a9a9'')
                            (radius enemy1 / 2) s2
                 in lasersVsEnemies env es
                      (newEnemies, s3\<lparr>score := score s3 + of_int \<lfloor>emaxHealth enemy1 * 5\<rfloor>\<rparr>))
              else lasersVsEnemies env es (newEnemies @ [enemy1], s2)))"

definition enemyCollisions :: "Env \<Rightarrow> World \<Rightarrow> World" where
  "enemyCollisions env s =
     (case lasersVsEnemies env (enemiesRef s) ([], s) of
        (newEnemies, s1) \<Rightarrow> s1\<lparr>enemiesRef := newEnemies\<rparr>)"

text \<open>Player against enemies: the loop stops at the first enemy that overlaps the player.
  Every round reads the player through the ref.\<close>

fun playerVsEnemies :: "Env \<Rightarrow> Enemy list \<Rightarrow> World \<Rightarrow> fault + World" where
  "playerVsEnemies env [] s = Inr s"
| "playerVsEnemies env (enemy # es) s =
     (case playerRef s of
        None \<Rightarrow> Inl TypeError
      | Some p \<Rightarrow>
          if checkCollision p enemy then
            (let s1 = s\<lparr>playerRef := Some (p\<lparr>health := health p - 20\<rparr>)\<rparr>;
                 s2 = createExplosion env (position enemy) (radius enemy) ''#ffbe0b''
                        (radius enemy / 2) s1
             in Inr (s2\<lparr>enemiesRef := filter (\<lambda>e. ident e \<noteq> ident enemy) (enemiesRef s2)\<rparr>))
          else playerVsEnemies env es s)"

text \<open>Enemy lasers against the player; the loop state is \<^verbatim>\<open>playerLasers\<close> and the world.
  The ref is read only for a laser that is not the player's.\<close>

fun lasersVsPlayer :: "Env \<Rightarrow> Laser list \<Rightarrow> Laser list \<times> World \<Rightarrow> fault + Laser list \<times> World" where
  "lasersVsPlayer env [] st = Inr st"
| "lasersVsPlayer env (laser # ls) (playerLasers, s) =
     (if \<not> isPlayerLaser laser then
        (case playerRef s of
           None \<Rightarrow> Inl TypeError
         | Some p \<Rightarrow>
             if checkCollision laser p then
               (let s1 = s\<lparr>playerRef := Some (p\<lparr>health := health p - 10\<rparr>)\<rparr>;
                    s2 = createExplosion env (position laser) 10 ''#ff4136'' 3 s1
                in lasersVsPlayer env ls (playerLasers, s2))
             else lasersVsPlayer env ls (playerLasers @ [laser], s))
      else lasersVsPlayer env ls (playerLasers @ [laser], s))"

text \<open>The death check: the explosion, then the ref is cleared, then the change of status is
  handed to \<^verbatim>\<open>setTimeout\<close> with a delay of 1000 ms.\<close>

definition playerDeathCheck :: "Env \<Rightarrow> World \<Rightarrow> fault + World" where
  "playerDeathCheck env s =
     (case playerRef s of
        None \<Rightarrow> Inl TypeError
      | Some p \<Rightarrow>
          if health p \<le> 0 then
            (let s1 = createExplosion env (position p) 40 ''#00f2ff'' 20 s
             in Inr (s1\<lparr>playerRef := None, timeouts := timeouts s1 @ [(1000, GameOver)]\<rparr>))
          else Inr s)"

text \<open>The two damage loops of the player block, up to the assignment of
  \<^verbatim>\<open>lasersRef.current\<close>.\<close>

definition playerDamage :: "Env \<Rightarrow> World \<Rightarrow> fault + World" where
  "playerDamage env s =
     bindF (playerVsEnemies env (enemiesRef s) s) (\<lambda>s1.
     bindF (lasersVsPlayer env (lasersRef s1) ([], s1)) (\<lambda>(playerLasers, s2).
     Inr (s2\<lparr>lasersRef := playerLasers\<rparr>)))"

definition playerCollisions :: "Env \<Rightarrow> World \<Rightarrow> fault + World" where
  "playerCollisions env s =
     (if playerRef s \<noteq> None then bindF (playerDamage env s) (playerDeathCheck env)
      else Inr s)"

subsection \<open>The frame callback\<close>

text \<open>Lasers, particles and enemies are updated and drawn, then the spawner runs.\<close>

definition moveAndSpawn :: "Env \<Rightarrow> real \<Rightarrow> real \<Rightarrow> real \<Rightarrow> World \<Rightarrow> World" where
  "moveAndSpawn env deltaTime w h s =
     spawnEnemy env w h (updateEnemies w h (updateParticles deltaTime w h (updateLasers w h s)))"

text \<open>The callback up to the player block of the collisions: player, motion, spawner,
  enemy fire, and the sweep of the lasers against the enemies.\<close>

definition beforePlayerCollisions :: "Env \<Rightarrow> real \<Rightarrow> World \<Rightarrow> fault + World" where
  "beforePlayerCollisions env deltaTime s =
     (let w = width s; h = height s
      in bindF (updatePlayer env w h s) (\<lambda>s1.
         let s2 = moveAndSpawn env deltaTime w h s1
         in bindF (enemyAI env (enemiesRef s2) s2) (\<lambda>s3.
            Inr (enemyCollisions env s3))))"

definition updateAndDraw :: "Env \<Rightarrow> real \<Rightarrow> World \<Rightarrow> fault + World" where
  "updateAndDraw env deltaTime s =
     (if \<not> canvasReady env then Inr s
      else bindF (beforePlayerCollisions env deltaTime s) (playerCollisions env))"

text \<open>\<^verbatim>\<open>useGameLoop\<close> calls the frame callback only while the status is \<^verbatim>\<open>Playing\<close>.\<close>

definition gameLoopFrame :: "Env \<Rightarrow> real \<Rightarrow> World \<Rightarrow> fault + World" where
  "gameLoopFrame env deltaTime s =
     (if gameStatus s = Playing then updateAndDraw env deltaTime s else Inr s)"

subsection \<open>Notions used to state the properties\<close>

text \<open>
  The timer of the environment, at its earliest: once \<open>t\<close> milliseconds have passed, the
  callbacks registered with a delay of at most \<open>t\<close> have run, in the order of their
  registration, and the others are still pending. A browser may run a callback later than
  its delay, never sooner.
\<close>

definition runTimeouts :: "real \<Rightarrow> World \<Rightarrow> World" where
  "runTimeouts t s =
     s\<lparr>gameStatus := foldl (\<lambda>g (d, st). if d \<le> t then st else g) (gameStatus s) (timeouts s),
       timeouts := map (\<lambda>(d, st). (d - t, st)) (filter (\<lambda>(d, st). t < d) (timeouts s))\<rparr>"

text \<open>The state of a tick once the damage to the player is resolved, before the death
  check: the callback with its last test cut off.\<close>

definition damageResolved :: "Env \<Rightarrow> real \<Rightarrow> World \<Rightarrow> fault + World" where
  "damageResolved env deltaTime s =
     bindF (beforePlayerCollisions env deltaTime s) (\<lambda>s0.
       if playerRef s0 \<noteq> None then playerDamage env s0 else Inr s0)"

text \<open>A laser hits an enemy in the sweep when it is the player's and overlaps the enemy.\<close>

definition hitBy :: "Enemy \<Rightarrow> Laser \<Rightarrow> bool" where
  "hitBy e l \<longleftrightarrow> isPlayerLaser l \<and> checkCollision l e"

text \<open>
  The sweep of section 4.6 (1) of the specification, in its words: for each enemy in turn the
  lasers are partitioned into those that hit it and the others; each hit takes 5 from the
  enemy's health and the laser is consumed; the enemy is destroyed when it was hit and its
  resulting health is at most 0. The result pairs every enemy, after its damage, with
  whether it is destroyed.
\<close>

fun sweep :: "Enemy list \<Rightarrow> Laser list \<Rightarrow> (Enemy \<times> bool) list" where
  "sweep [] ls = []"
| "sweep (e # es) ls =
     (let hits = filter (hitBy e) ls;
          e1 = e\<lparr>ehealth := ehealth e - 5 * real (length hits)\<rparr>
      in (e1, hits \<noteq> [] \<and> ehealth e1 \<le> 0) # sweep es (filter (\<lambda>l. \<not> hitBy e l) ls))"

text \<open>The lasers the sweep leaves.\<close>

fun sweepLasers :: "Enemy list \<Rightarrow> Laser list \<Rightarrow> Laser list" where
  "sweepLasers [] ls = ls"
| "sweepLasers (e # es) ls = sweepLasers es (filter (\<lambda>l. \<not> hitBy e l) ls)"

text \<open>A laser hits the player when it is not the player's and overlaps the player.\<close>

definition hitsPlayer :: "Player \<Rightarrow> Laser \<Rightarrow> bool" where
  "hitsPlayer p l \<longleftrightarrow> \<not> isPlayerLaser l \<and> checkCollision l p"

text \<open>The player's health once the damage of a tick is resolved: 20 less if some enemy
  overlaps the player, and 10 less for every laser that hits the player.\<close>

definition healthAfterDamage :: "Player \<Rightarrow> Enemy list \<Rightarrow> Laser list \<Rightarrow> real" where
  "healthAfterDamage p es ls =
     health p - (if find (checkCollision p) es = None then 0 else 20)
       - 10 * real (length (filter (hitsPlayer p) ls))"

text \<open>The enemies left once the first enemy that overlaps the player, if any, is removed
  through its id.\<close>

definition enemiesAfterRam :: "Player \<Rightarrow> Enemy list \<Rightarrow> Enemy list" where
  "enemiesAfterRam p es =
     (case find (checkCollision p) es of
        None \<Rightarrow> es
      | Some e0 \<Rightarrow> filter (\<lambda>e. ident e \<noteq> ident e0) es)"

text \<open>The spawn cap \<^verbatim>\<open>5 + Math.floor(score / 500)\<close>.\<close>

definition spawnCap :: "World \<Rightarrow> real" where
  "spawnCap s = 5 + of_int \<lfloor>score s / 500\<rfloor>"

text \<open>The invariant behind the spawn cap: the enemies do not outnumber the cap, and no enemy
  has a negative \<^verbatim>\<open>maxHealth\<close>, so that the score, and with it the cap, never goes down.\<close>

definition capInv :: "World \<Rightarrow> bool" where
  "capInv s \<longleftrightarrow>
     real (length (enemiesRef s)) \<le> spawnCap s \<and>
     list_all (\<lambda>e. 0 \<le> emaxHealth e) (enemiesRef s)"

text \<open>No particle in the collection has run out of life.\<close>

definition noExpiredParticles :: "World \<Rightarrow> bool" where
  "noExpiredParticles s \<longleftrightarrow> list_all (\<lambda>p. 0 < life p) (particlesRef s)"

text \<open>No laser in the collection lies outside the viewport, its border included.\<close>

definition noStrayLasers :: "World \<Rightarrow> bool" where
  "noStrayLasers s \<longleftrightarrow>
     list_all (\<lambda>l. 0 \<le> vx (position l) \<and> vx (position l) \<le> width s \<and>
                   0 \<le> vy (position l) \<and> vy (position l) \<le> height s) (lasersRef s)"







text \<open>\<^verbatim>\<open>Math.random()\<close> returns values in \<open>[0, 1)\<close>.\<close>

definition randomInRange :: "Env \<Rightarrow> bool" where
  "randomInRange env \<longleftrightarrow> (\<forall>n. 0 \<le> mathRandom env n \<and> mathRandom env n < 1)"

text \<open>An enemy laser that carries an id minted in the tick of \<open>env\<close>.\<close>

definition isEnemyShot :: "Env \<Rightarrow> Laser \<Rightarrow> bool" where
  "isEnemyShot env l \<longleftrightarrow>
     \<not> isPlayerLaser l \<and>
     (case ident l of EnemyLaserId d r \<Rightarrow> d = dateNow env | _ \<Rightarrow> False)"

text \<open>The effect of explosions on a state: particles with a life of 1 are appended and
  \<^verbatim>\<open>Math.random()\<close> has been called; nothing else differs.\<close>

definition addsParticles :: "World \<Rightarrow> World \<Rightarrow> bool" where
  "addsParticles s s' \<longleftrightarrow>
     (\<exists>ps k. s' = s\<lparr>particlesRef := particlesRef s @ ps, randomCalls := k\<rparr> \<and>
             list_all (\<lambda>p. life p = 1) ps)"

text \<open>The score the sweep awards: \<^verbatim>\<open>Math.floor(enemy.maxHealth * 5)\<close> for each destroyed
  enemy.\<close>

definition sweepScore :: "(Enemy \<times> bool) list \<Rightarrow> real" where
  "sweepScore r = sum_list (map (\<lambda>(e, d). if d then of_int \<lfloor>emaxHealth e * 5\<rfloor> else 0) r)"

text \<open>The enemies the sweep leaves in the collection.\<close>

definition sweepSurvivors :: "(Enemy \<times> bool) list \<Rightarrow> Enemy list" where
  "sweepSurvivors r = map fst (filter (\<lambda>(e, d). \<not> d) r)"

subsection \<open>Concrete inputs\<close>


text \<open>A ship at the centre of an 800 by 600 viewport, two meteors on top of it, and a
  saucer's laser about to hit it.\<close>

definition demoPlayer :: Player where
  "demoPlayer = \<lparr>ident = PlayerId, position = \<lparr>vx = 400, vy = 300\<rparr>,
                  velocity = \<lparr>vx = 0, vy = 0\<rparr>, radius = 10,
                  health = 100, maxHealth = 100, rotation = 0\<rparr>"

definition demoMeteor :: "real \<Rightarrow> Enemy" where
  "demoMeteor n = \<lparr>ident = EnemyId n 0.5, position = \<lparr>vx = 400, vy = 300\<rparr>,
                    velocity = \<lparr>vx = 0, vy = 0\<rparr>, radius = 20,
                    etype = Meteor, ehealth = 10, emaxHealth = 10, erotation = None\<rparr>"

definition demoEnemyLaser :: Laser where
  "demoEnemyLaser = \<lparr>ident = EnemyLaserId 3 0.5, position = \<lparr>vx = 400, vy = 300\<rparr>,
                      velocity = \<lparr>vx = 5, vy = 0\<rparr>, radius = 3, isPlayerLaser = False\<rparr>"

definition demoWorld :: World where
  "demoWorld = \<lparr>gameStatus = Playing, score = 0, playerRef = Some demoPlayer,
                 enemiesRef = [demoMeteor 1, demoMeteor 2], lasersRef = [demoEnemyLaser],
                 particlesRef = [], lastShotTimeRef = 0, width = 800, height = 600,
                 timeouts = [], randomCalls = 0\<rparr>"

definition demoEnv :: Env where
  "demoEnv = \<lparr>canvasReady = True, keysPressed = {}, performanceNow = 5000,
               dateNow = 5000, mathRandom = (\<lambda>n. 1 / 2)\<rparr>"

text \<open>The same scene with a player laser on top of the meteors, the first of which has 5
  health left and a \<^verbatim>\<open>maxHealth\<close> of 7.5.\<close>

definition strikeWorld :: World where
  "strikeWorld =
     demoWorld\<lparr>enemiesRef := [(demoMeteor 1)\<lparr>ehealth := 5, emaxHealth := 7.5\<rparr>, demoMeteor 2],
               lasersRef := [\<lparr>ident = LaserId 4900, position = \<lparr>vx = 400, vy = 300\<rparr>,
                              velocity = \<lparr>vx = 7, vy = 0\<rparr>, radius = 2, isPlayerLaser = True\<rparr>,
                             demoEnemyLaser]\<rparr>"

text \<open>The same scene with a ship that has 25 health left, and the state of its tick (16 ms,
  no key held, every random number 1/2) when the player block of the collisions begins: the
  laser has moved, the meteors have spun, and a third meteor has spawned below the
  viewport.\<close>

definition doomedWorld :: World where
  "doomedWorld = demoWorld\<lparr>playerRef := Some (demoPlayer\<lparr>health := 25\<rparr>)\<rparr>"

definition doomedBefore :: World where
  "doomedBefore =
     \<lparr>gameStatus = Playing, score = 0,
      playerRef = Some (demoPlayer\<lparr>health := 25\<rparr>),
      enemiesRef =
        [(demoMeteor 1)\<lparr>erotation := Some (1 / 100)\<rparr>,
         (demoMeteor 2)\<lparr>erotation := Some (1 / 100)\<rparr>,
         \<lparr>ident = EnemyId 5000 (1 / 2), position = \<lparr>vx = 400, vy = 1255 / 2\<rparr>,
          velocity = \<lparr>vx = 0, vy = 0\<rparr>, radius = 55 / 2, etype = Meteor,
          ehealth = 55 / 4, emaxHealth = 55 / 4, erotation = None\<rparr>],
      lasersRef = [demoEnemyLaser\<lparr>position := \<lparr>vx = 405, vy = 300\<rparr>\<rparr>],
      particlesRef = [], lastShotTimeRef = 0, width = 800, height = 600,
      timeouts = [], randomCalls = 19\<rparr>"

text \<open>A state in the second after the player's death: no player, a saucer that would fire
  at every tick if there were one (every random number is 0), and a laser in flight.\<close>

definition wreckEnv :: Env where
  "wreckEnv = \<lparr>canvasReady = True, keysPressed = {''Space'', ''ArrowUp''},
                performanceNow = 9000, dateNow = 9000, mathRandom = (\<lambda>n. 0)\<rparr>"

definition wreckWorld :: World where
  "wreckWorld = \<lparr>gameStatus = Playing, score = 300, playerRef = None,
                  enemiesRef = [\<lparr>ident = EnemyId 7 0.25, position = \<lparr>vx = 100, vy = 100\<rparr>,
                                 velocity = \<lparr>vx = 1, vy = 0\<rparr>, radius = 20, etype = Saucer,
                                 ehealth = 10, emaxHealth = 10, erotation = None\<rparr>],
                  lasersRef = [demoEnemyLaser],
                  particlesRef = [], lastShotTimeRef = 0, width = 800, height = 600,
                  timeouts = [(1000, GameOver)], randomCalls = 0\<rparr>"

text \<open>A quiet moment of a game: the ship at rest in the centre, a spark with 10 ms of life
  left, and a saucer's laser one step from the right edge.\<close>

definition fadingWorld :: World where
  "fadingWorld =
     \<lparr>gameStatus = Playing, score = 0, playerRef = Some demoPlayer,
      enemiesRef = [],
      lasersRef = [\<lparr>ident = EnemyLaserId 3 0.5, position = \<lparr>vx = 799, vy = 300\<rparr>,
                    velocity = \<lparr>vx = 1.5, vy = 0\<rparr>, radius = 3, isPlayerLaser = False\<rparr>],
      particlesRef = [\<lparr>ident = ParticleId 4 0.5, position = \<lparr>vx = 100, vy = 100\<rparr>,
                       velocity = \<lparr>vx = 0, vy = 0\<rparr>, radius = 0.02,
                       life = 0.01, maxLife = 1, color = ''#00f2ff'', startSize = 2\<rparr>],
      lastShotTimeRef = 0, width = 800, height = 600, timeouts = [], randomCalls = 0\<rparr>"

text \<open>The state after one tick of 16 ms from it, no key held and every random number 1/2:
  the spark's life is below 0 and the laser is past the right edge, and both are still in
  their collections; a meteor has spawned below the viewport.\<close>

definition fadingAfter :: World where
  "fadingAfter =
     \<lparr>gameStatus = Playing, score = 0, playerRef = Some demoPlayer,
      enemiesRef = [\<lparr>ident = EnemyId 5000 (1 / 2), position = \<lparr>vx = 400, vy = 1255 / 2\<rparr>,
                     velocity = \<lparr>vx = 0, vy = 0\<rparr>, radius = 55 / 2, etype = Meteor,
                     ehealth = 55 / 4, emaxHealth = 55 / 4, erotation = None\<rparr>],
      lasersRef = [\<lparr>ident = EnemyLaserId 3 0.5, position = \<lparr>vx = 1601 / 2, vy = 300\<rparr>,
                    velocity = \<lparr>vx = 1.5, vy = 0\<rparr>, radius = 3, isPlayerLaser = False\<rparr>],
      particlesRef = [\<lparr>ident = ParticleId 4 0.5, position = \<lparr>vx = 100, vy = 100\<rparr>,
                       velocity = \<lparr>vx = 0, vy = 0\<rparr>, radius = - (3 / 250),
                       life = - (3 / 500), maxLife = 1, color = ''#00f2ff'', startSize = 2\<rparr>],
      lastShotTimeRef = 0, width = 800, height = 600, timeouts = [], randomCalls = 7\<rparr>"



section \<open>Properties\<close>

subsection \<open>Geometry\<close>

lemma distance_commute: "distance p q = distance q p"
  by (simp add: distance_def power2_commute)

lemma checkCollision_squares:
  "checkCollision a b \<longleftrightarrow>
     0 < radius a + radius b \<and>
     (vx (position a) - vx (position b))\<^sup>2 + (vy (position a) - vy (position b))\<^sup>2
       < (radius a + radius b)\<^sup>2"
proof -
  define u where "u = (vx (position a) - vx (position b))\<^sup>2 + (vy (position a) - vy (position b))\<^sup>2"
  define c where "c = radius a + radius b"
  have u0: "0 \<le> u" by (simp add: u_def)
  have "sqrt u < c \<longleftrightarrow> 0 < c \<and> u < c\<^sup>2"
  proof (cases "0 < c")
    case True
    then have "sqrt u < c \<longleftrightarrow> sqrt u < sqrt (c\<^sup>2)" by simp
    also have "\<dots> \<longleftrightarrow> u < c\<^sup>2" by (rule real_sqrt_less_iff)
    finally show ?thesis using True by simp
  next
    case False
    moreover have "0 \<le> sqrt u" using u0 by simp
    ultimately show ?thesis by linarith
  qed
  then show ?thesis
    by (simp add: checkCollision_def distance_def u_def c_def)
qed

text \<open>
  Claim C9. \<^verbatim>\<open>checkCollision\<close> is symmetric: for every pair of game objects \<open>a\<close> and \<open>b\<close>,
  \<open>checkCollision a b = checkCollision b a\<close>, where \<open>checkCollision a b\<close> is true iff the
  Euclidean distance between the positions is strictly less than the sum of the radii.
\<close>

theorem checkCollision_symmetric:
  "checkCollision a b = checkCollision b a \<and>
   (checkCollision a b \<longleftrightarrow>
      sqrt ((vx (position a) - vx (position b))\<^sup>2 + (vy (position a) - vy (position b))\<^sup>2)
        < radius a + radius b)"
proof
  have "distance (position a) (position b) = distance (position b) (position a)"
    by (rule distance_commute)
  moreover have "radius a + radius b = radius b + radius a"
    by simp
  ultimately show "checkCollision a b = checkCollision b a"
    unfolding checkCollision_def by (simp only:)
next
  show "checkCollision a b \<longleftrightarrow>
      sqrt ((vx (position a) - vx (position b))\<^sup>2 + (vy (position a) - vy (position b))\<^sup>2)
        < radius a + radius b"
    by (simp add: checkCollision_def distance_def)
qed

subsection \<open>Reset\<close>

text \<open>
  Claim C6. \<^verbatim>\<open>resetGame\<close> is idempotent: with the viewport unchanged, resetting twice gives
  the state that resetting once gives, in which the score is 0, there are no enemies, lasers
  or particles, and the player is at the centre of the viewport \<open>(width / 2, height / 2)\<close> with
  zero velocity, rotation \<open>-\<pi>/2\<close> and health equal to \<^verbatim>\<open>maxHealth\<close>.
\<close>

theorem resetGame_idempotent:
  "resetGame (resetGame s) = resetGame s \<and>
   width (resetGame s) = width s \<and> height (resetGame s) = height s \<and>
   score (resetGame s) = 0 \<and>
   enemiesRef (resetGame s) = [] \<and> lasersRef (resetGame s) = [] \<and>
   particlesRef (resetGame s) = [] \<and>
   (\<exists>p. playerRef (resetGame s) = Some p \<and>
        position p = \<lparr>vx = width s / 2, vy = height s / 2\<rparr> \<and>
        velocity p = \<lparr>vx = 0, vy = 0\<rparr> \<and>
        rotation p = - pi / 2 \<and>
        health p = maxHealth p \<and> maxHealth p = PLAYER_MAX_HEALTH)"
  by (simp add: resetGame_def)

subsection \<open>Motion\<close>

lemma updatePosition_radius [simp]: "radius (updatePosition w h obj) = radius obj"
  by (simp add: updatePosition_def Let_def)

lemma updatePosition_velocity [simp]: "velocity (updatePosition w h obj) = velocity obj"
  by (simp add: updatePosition_def Let_def)

lemma updatePosition_ident [simp]: "ident (updatePosition w h obj) = ident obj"
  by (simp add: updatePosition_def Let_def)

lemma updatePosition_more [simp]:
  "GameObject.more (updatePosition w h obj) = GameObject.more obj"
  by (simp add: updatePosition_def Let_def)




subsection \<open>Explosions and the sweep of the lasers against the enemies\<close>

declare createExplosionFrom.simps [simp del]

lemma addsParticles_refl [simp]: "addsParticles s s"
  unfolding addsParticles_def
  by (rule exI [of _ "[]"], rule exI [of _ "randomCalls s"]) simp

lemma addsParticles_trans:
  assumes "addsParticles s t" and "addsParticles t u"
  shows "addsParticles s u"
proof -
  from assms(1) obtain ps k where t: "t = s\<lparr>particlesRef := particlesRef s @ ps, randomCalls := k\<rparr>"
    and ps: "list_all (\<lambda>p. life p = 1) ps"
    unfolding addsParticles_def by blast
  from assms(2) obtain qs j where u: "u = t\<lparr>particlesRef := particlesRef t @ qs, randomCalls := j\<rparr>"
    and qs: "list_all (\<lambda>p. life p = 1) qs"
    unfolding addsParticles_def by blast
  have "u = s\<lparr>particlesRef := particlesRef s @ (ps @ qs), randomCalls := j\<rparr>"
    by (simp add: u t)
  moreover have "list_all (\<lambda>p. life p = 1) (ps @ qs)"
    using ps qs by simp
  ultimately show ?thesis
    unfolding addsParticles_def by blast
qed

lemma addsParticles_push:
  "addsParticles s (s\<lparr>particlesRef := particlesRef s @ [p\<lparr>life := 1\<rparr>], randomCalls := k\<rparr>)"
  unfolding addsParticles_def
  by (rule exI [of _ "[p\<lparr>life := 1\<rparr>]"], rule exI [of _ k]) simp

lemma addsParticles_frame:
  assumes "addsParticles s s'"
  shows "enemiesRef s' = enemiesRef s" "lasersRef s' = lasersRef s"
    "playerRef s' = playerRef s" "score s' = score s"
    "gameStatus s' = gameStatus s" "timeouts s' = timeouts s"
    "width s' = width s" "height s' = height s"
    "lastShotTimeRef s' = lastShotTimeRef s"
  using assms unfolding addsParticles_def by auto

lemma addsParticles_particles:
  assumes "addsParticles s s'"
  shows "\<exists>ps. particlesRef s' = particlesRef s @ ps \<and> list_all (\<lambda>p. life p = 1) ps"
  using assms unfolding addsParticles_def by auto

lemma addsParticles_update:
  assumes "addsParticles s s'"
  shows "addsParticles (s\<lparr>lasersRef := l\<rparr>) (s'\<lparr>lasersRef := l\<rparr>)"
    "addsParticles (s\<lparr>playerRef := p\<rparr>) (s'\<lparr>playerRef := p\<rparr>)"
    "addsParticles (s\<lparr>score := c\<rparr>) (s'\<lparr>score := c\<rparr>)"
    "addsParticles (s\<lparr>enemiesRef := e\<rparr>) (s'\<lparr>enemiesRef := e\<rparr>)"
proof -
  from assms obtain ps k where s': "s' = s\<lparr>particlesRef := particlesRef s @ ps, randomCalls := k\<rparr>"
    and ps: "list_all (\<lambda>p. life p = 1) ps"
    unfolding addsParticles_def by blast
  show "addsParticles (s\<lparr>lasersRef := l\<rparr>) (s'\<lparr>lasersRef := l\<rparr>)"
    unfolding addsParticles_def
    by (rule exI [of _ ps], rule exI [of _ k]) (simp add: s' ps)
  show "addsParticles (s\<lparr>playerRef := p\<rparr>) (s'\<lparr>playerRef := p\<rparr>)"
    unfolding addsParticles_def
    by (rule exI [of _ ps], rule exI [of _ k]) (simp add: s' ps)
  show "addsParticles (s\<lparr>score := c\<rparr>) (s'\<lparr>score := c\<rparr>)"
    unfolding addsParticles_def
    by (rule exI [of _ ps], rule exI [of _ k]) (simp add: s' ps)
  show "addsParticles (s\<lparr>enemiesRef := e\<rparr>) (s'\<lparr>enemiesRef := e\<rparr>)"
    unfolding addsParticles_def
    by (rule exI [of _ ps], rule exI [of _ k]) (simp add: s' ps)
qed

lemma createExplosionFrom_adds:
  "addsParticles s (createExplosionFrom env pos count col sz i s)"
proof (induction env pos count col sz i s rule: createExplosionFrom.induct)
  case (1 env pos count col sz i s)
  show ?case
  proof (cases "real i < count")
    case True
    define p where "p = \<lparr>ident = ParticleId (dateNow env) (mathRandom env (randomCalls s)),
                 position = \<lparr>vx = vx pos, vy = vy pos\<rparr>,
                 velocity = \<lparr>vx = randomBetween (mathRandom env (randomCalls s + 1)) (- 3) 3,
                             vy = randomBetween (mathRandom env (randomCalls s + 2)) (- 3) 3\<rparr>,
                 radius = mathRandom env (randomCalls s + 3) * sz,
                 life = 1,
                 maxLife = 1,
                 color = col,
                 startSize = mathRandom env (randomCalls s + 4) * sz + 1\<rparr>"
    define s1 where "s1 = s\<lparr>particlesRef := particlesRef s @ [p], randomCalls := randomCalls s + 5\<rparr>"
    have lp: "p = p\<lparr>life := 1\<rparr>" by (simp add: p_def)
    have a: "addsParticles s s1"
      unfolding s1_def by (subst lp) (rule addsParticles_push)
    have b: "addsParticles s1 (createExplosionFrom env pos count col sz (Suc i) s1)"
      using "1" [OF True refl refl] by (simp add: s1_def p_def)
    have c: "createExplosionFrom env pos count col sz i s =
             createExplosionFrom env pos count col sz (Suc i) s1"
      by (subst createExplosionFrom.simps) (simp add: True Let_def s1_def p_def)
    show ?thesis
      unfolding c by (rule addsParticles_trans [OF a b])
  next
    case False
    then show ?thesis
      by (subst createExplosionFrom.simps) simp
  qed
qed

lemma createExplosion_adds: "addsParticles s (createExplosion env pos count col sz s)"
  by (simp add: createExplosion_def createExplosionFrom_adds)

lemma createExplosion_frame [simp]:
  "enemiesRef (createExplosion env pos count col sz s) = enemiesRef s"
  "lasersRef (createExplosion env pos count col sz s) = lasersRef s"
  "playerRef (createExplosion env pos count col sz s) = playerRef s"
  "score (createExplosion env pos count col sz s) = score s"
  "gameStatus (createExplosion env pos count col sz s) = gameStatus s"
  "timeouts (createExplosion env pos count col sz s) = timeouts s"
  "width (createExplosion env pos count col sz s) = width s"
  "height (createExplosion env pos count col sz s) = height s"
  "lastShotTimeRef (createExplosion env pos count col sz s) = lastShotTimeRef s"
  using addsParticles_frame [OF createExplosion_adds] by simp_all

lemma hitBy_ehealth [simp]: "hitBy (e\<lparr>ehealth := v\<rparr>) l = hitBy e l"
  by (simp add: hitBy_def checkCollision_def)

lemma hitBy_ehealth_fun [simp]: "hitBy (e\<lparr>ehealth := v\<rparr>) = hitBy e"
  by (rule ext) simp

lemma lasersVsEnemy_result:
  "\<exists>s'. lasersVsEnemy env ls (e, d, nl, s) =
          (e\<lparr>ehealth := ehealth e - 5 * real (length (filter (hitBy e) ls))\<rparr>,
           d \<or> (filter (hitBy e) ls \<noteq> [] \<and>
                ehealth e - 5 * real (length (filter (hitBy e) ls)) \<le> 0),
           nl @ filter (\<lambda>l. \<not> hitBy e l) ls,
           s') \<and>
        addsParticles s s'"
proof (induction ls arbitrary: e d nl s)
  case Nil
  show ?case by simp
next
  case (Cons l ls)
  show ?case
  proof (cases "hitBy e l")
    case True
    define e1 where "e1 = e\<lparr>ehealth := ehealth e - 5\<rparr>"
    define s1 where "s1 = createExplosion env (position l) 5 ''#00f2ff'' 2 s"
    define d1 where "d1 = (if ehealth e1 \<le> 0 then True else d)"
    have step: "lasersVsEnemy env (l # ls) (e, d, nl, s) = lasersVsEnemy env ls (e1, d1, nl, s1)"
      using True by (simp add: hitBy_def e1_def s1_def d1_def Let_def)
    obtain s' where s': "lasersVsEnemy env ls (e1, d1, nl, s1) =
          (e1\<lparr>ehealth := ehealth e1 - 5 * real (length (filter (hitBy e1) ls))\<rparr>,
           d1 \<or> (filter (hitBy e1) ls \<noteq> [] \<and>
                ehealth e1 - 5 * real (length (filter (hitBy e1) ls)) \<le> 0),
           nl @ filter (\<lambda>l. \<not> hitBy e1 l) ls,
           s')"
      and ad: "addsParticles s1 s'"
      using Cons.IH [of e1 d1 nl s1] by blast
    have hb: "hitBy e1 = hitBy e"
      by (simp add: e1_def)
    have ad': "addsParticles s s'"
      using addsParticles_trans [OF createExplosion_adds ad [unfolded s1_def]] .
    have eq1: "e1\<lparr>ehealth := ehealth e1 - 5 * real (length (filter (hitBy e1) ls))\<rparr> =
               e\<lparr>ehealth := ehealth e - 5 * real (length (filter (hitBy e) (l # ls)))\<rparr>"
      using True unfolding hb by (simp add: e1_def algebra_simps)
    have eq2: "(d1 \<or> (filter (hitBy e1) ls \<noteq> [] \<and>
                ehealth e1 - 5 * real (length (filter (hitBy e1) ls)) \<le> 0)) =
               (d \<or> (filter (hitBy e) (l # ls) \<noteq> [] \<and>
                ehealth e - 5 * real (length (filter (hitBy e) (l # ls))) \<le> 0))"
    proof -
      have "0 \<le> 5 * real (length (filter (hitBy e) ls))" by simp
      then show ?thesis
        using True unfolding hb by (auto simp add: e1_def d1_def algebra_simps)
    qed
    have eq3: "nl @ filter (\<lambda>l. \<not> hitBy e1 l) ls = nl @ filter (\<lambda>l. \<not> hitBy e l) (l # ls)"
      using True by (simp add: hb)
    show ?thesis
      unfolding step s' eq1 eq2 eq3 using ad' by simp
  next
    case False
    have step: "lasersVsEnemy env (l # ls) (e, d, nl, s) = lasersVsEnemy env ls (e, d, nl @ [l], s)"
      using False unfolding hitBy_def by auto
    show ?thesis
      unfolding step using Cons.IH [of e d "nl @ [l]" s] False by simp
  qed
qed

lemma lasersVsEnemies_result:
  "\<exists>s'. lasersVsEnemies env es (ne, s) =
          (ne @ sweepSurvivors (sweep es (lasersRef s)),
           s'\<lparr>lasersRef := sweepLasers es (lasersRef s),
              score := score s + sweepScore (sweep es (lasersRef s))\<rparr>) \<and>
        addsParticles s s'"
proof (induction es arbitrary: ne s)
  case Nil
  have "s = s\<lparr>lasersRef := lasersRef s, score := score s\<rparr>" by simp
  then show ?case
    by (auto simp add: sweepSurvivors_def sweepScore_def intro: exI [of _ s])
next
  case (Cons e es)
  define hits where "hits = filter (hitBy e) (lasersRef s)"
  define e1 where "e1 = e\<lparr>ehealth := ehealth e - 5 * real (length hits)\<rparr>"
  define d where "d = (hits \<noteq> [] \<and> ehealth e1 \<le> 0)"
  define nl where "nl = filter (\<lambda>l. \<not> hitBy e l) (lasersRef s)"
  obtain s1 where s1: "lasersVsEnemy env (lasersRef s) (e, False, [], s) = (e1, d, nl, s1)"
    and ad1: "addsParticles s s1"
    using lasersVsEnemy_result [of env "lasersRef s" e False "[]" s]
    by (auto simp add: hits_def e1_def d_def nl_def)
  define s2 where "s2 = s1\<lparr>lasersRef := nl\<rparr>"
  have sw: "sweep (e # es) (lasersRef s) = (e1, d) # sweep es nl"
    by (simp add: Let_def hits_def e1_def d_def nl_def)
  have swl: "sweepLasers (e # es) (lasersRef s) = sweepLasers es nl"
    by (simp add: nl_def)
  have ad2: "addsParticles (s\<lparr>lasersRef := nl\<rparr>) s2"
    unfolding s2_def by (rule addsParticles_update(1) [OF ad1])
  show ?case
  proof (cases d)
    case True
    define s3 where "s3 = createExplosion env (position e1) (radius e1)
                            (if etype e1 = Saucer then ''#8338ec'' else ''#a9a9a9'')
                            (radius e1 / 2) s2"
    define s4 where "s4 = s3\<lparr>score := score s3 + of_int \<lfloor>emaxHealth e1 * 5\<rfloor>\<rparr>"
    have step: "lasersVsEnemies env (e # es) (ne, s) = lasersVsEnemies env es (ne, s4)"
      using True by (simp add: s1 s2_def s3_def s4_def Let_def)
    have ad3: "addsParticles (s\<lparr>lasersRef := nl\<rparr>) s3"
      unfolding s3_def by (rule addsParticles_trans [OF ad2 createExplosion_adds])
    have sc3: "score s3 = score s" "lasersRef s3 = nl"
      using addsParticles_frame [OF ad3] by simp_all
    have ad4: "addsParticles (s\<lparr>lasersRef := nl, score := score s + of_int \<lfloor>emaxHealth e1 * 5\<rfloor>\<rparr>) s4"
      unfolding s4_def sc3 by (rule addsParticles_update(3) [OF ad3])
    obtain s' where r: "lasersVsEnemies env es (ne, s4) =
          (ne @ sweepSurvivors (sweep es (lasersRef s4)),
           s'\<lparr>lasersRef := sweepLasers es (lasersRef s4),
              score := score s4 + sweepScore (sweep es (lasersRef s4))\<rparr>)"
      and ad5: "addsParticles s4 s'"
      using Cons.IH [of ne s4] by blast
    have l4: "lasersRef s4 = nl" "score s4 = score s + of_int \<lfloor>emaxHealth e1 * 5\<rfloor>"
      by (simp_all add: s4_def sc3)
    have ad6: "addsParticles (s\<lparr>lasersRef := nl, score := score s + of_int \<lfloor>emaxHealth e1 * 5\<rfloor>\<rparr>) s'"
      by (rule addsParticles_trans [OF ad4 ad5])
    then obtain ps k where s'eq: "s' = s\<lparr>lasersRef := nl, score := score s + of_int \<lfloor>emaxHealth e1 * 5\<rfloor>,
                      particlesRef := particlesRef s @ ps, randomCalls := k\<rparr>"
      and ps: "list_all (\<lambda>p. life p = 1) ps"
      unfolding addsParticles_def by auto
    define t where "t = s\<lparr>particlesRef := particlesRef s @ ps, randomCalls := k\<rparr>"
    have adt: "addsParticles s t"
      unfolding addsParticles_def t_def using ps by blast
    have fin: "s'\<lparr>lasersRef := sweepLasers es nl,
                 score := score s + of_int \<lfloor>emaxHealth e1 * 5\<rfloor> + sweepScore (sweep es nl)\<rparr> =
               t\<lparr>lasersRef := sweepLasers (e # es) (lasersRef s),
                 score := score s + sweepScore (sweep (e # es) (lasersRef s))\<rparr>"
      unfolding sw swl using True by (simp add: s'eq t_def sweepScore_def)
    have surv: "sweepSurvivors (sweep (e # es) (lasersRef s)) = sweepSurvivors (sweep es nl)"
      unfolding sw using True by (simp add: sweepSurvivors_def)
    show ?thesis
      unfolding step r l4 fin surv using adt by blast
  next
    case False
    have step: "lasersVsEnemies env (e # es) (ne, s) = lasersVsEnemies env es (ne @ [e1], s2)"
      using False by (simp add: s1 s2_def Let_def)
    obtain s' where r: "lasersVsEnemies env es (ne @ [e1], s2) =
          ((ne @ [e1]) @ sweepSurvivors (sweep es (lasersRef s2)),
           s'\<lparr>lasersRef := sweepLasers es (lasersRef s2),
              score := score s2 + sweepScore (sweep es (lasersRef s2))\<rparr>)"
      and ad5: "addsParticles s2 s'"
      using Cons.IH [of "ne @ [e1]" s2] by blast
    have l2: "lasersRef s2 = nl" "score s2 = score s"
      using addsParticles_frame [OF ad1] by (simp_all add: s2_def)
    have ad6: "addsParticles (s\<lparr>lasersRef := nl\<rparr>) s'"
      by (rule addsParticles_trans [OF ad2 ad5])
    then obtain ps k where s'eq: "s' = s\<lparr>lasersRef := nl,
                      particlesRef := particlesRef s @ ps, randomCalls := k\<rparr>"
      and ps: "list_all (\<lambda>p. life p = 1) ps"
      unfolding addsParticles_def by auto
    define t where "t = s\<lparr>particlesRef := particlesRef s @ ps, randomCalls := k\<rparr>"
    have adt: "addsParticles s t"
      unfolding addsParticles_def t_def using ps by blast
    have fin: "s'\<lparr>lasersRef := sweepLasers es nl,
                 score := score s + sweepScore (sweep es nl)\<rparr> =
               t\<lparr>lasersRef := sweepLasers (e # es) (lasersRef s),
                 score := score s + sweepScore (sweep (e # es) (lasersRef s))\<rparr>"
      unfolding sw swl using False by (simp add: s'eq t_def sweepScore_def)
    have surv: "(ne @ [e1]) @ sweepSurvivors (sweep es nl) =
                ne @ sweepSurvivors (sweep (e # es) (lasersRef s))"
      unfolding sw using False by (simp add: sweepSurvivors_def)
    show ?thesis
      unfolding step r l2 fin surv using adt by blast
  qed
qed

lemma enemyCollisions_result:
  "\<exists>s'. enemyCollisions env s =
          s'\<lparr>enemiesRef := sweepSurvivors (sweep (enemiesRef s) (lasersRef s)),
             lasersRef := sweepLasers (enemiesRef s) (lasersRef s),
             score := score s + sweepScore (sweep (enemiesRef s) (lasersRef s))\<rparr> \<and>
        addsParticles s s'"
proof -
  obtain s' where r: "lasersVsEnemies env (enemiesRef s) ([], s) =
          ([] @ sweepSurvivors (sweep (enemiesRef s) (lasersRef s)),
           s'\<lparr>lasersRef := sweepLasers (enemiesRef s) (lasersRef s),
              score := score s + sweepScore (sweep (enemiesRef s) (lasersRef s))\<rparr>)"
    and ad: "addsParticles s s'"
    using lasersVsEnemies_result [of env "enemiesRef s" "[]" s] by blast
  have "enemyCollisions env s =
          s'\<lparr>enemiesRef := sweepSurvivors (sweep (enemiesRef s) (lasersRef s)),
             lasersRef := sweepLasers (enemiesRef s) (lasersRef s),
             score := score s + sweepScore (sweep (enemiesRef s) (lasersRef s))\<rparr>"
    by (simp add: enemyCollisions_def r)
  with ad show ?thesis by blast
qed

subsection \<open>The player block of the collisions\<close>

lemma addsParticles_absorb_playerRef:
  assumes "addsParticles (s\<lparr>playerRef := a\<rparr>) t"
  shows "\<exists>s'. addsParticles s s' \<and> t = s'\<lparr>playerRef := a\<rparr>"
proof -
  from assms obtain ps k where t: "t = s\<lparr>playerRef := a, particlesRef := particlesRef s @ ps, randomCalls := k\<rparr>"
    and ps: "list_all (\<lambda>p. life p = 1) ps"
    unfolding addsParticles_def by auto
  define s' where "s' = s\<lparr>particlesRef := particlesRef s @ ps, randomCalls := k\<rparr>"
  have "addsParticles s s'"
    unfolding addsParticles_def s'_def using ps by blast
  moreover have "t = s'\<lparr>playerRef := a\<rparr>"
    by (simp add: t s'_def)
  ultimately show ?thesis by blast
qed

lemma playerVsEnemies_find:
  assumes "playerRef s = Some p"
  shows "playerVsEnemies env es s =
           (case find (checkCollision p) es of
              None \<Rightarrow> Inr s
            | Some e0 \<Rightarrow>
                Inr ((createExplosion env (position e0) (radius e0) ''#ffbe0b'' (radius e0 / 2)
                        (s\<lparr>playerRef := Some (p\<lparr>health := health p - 20\<rparr>)\<rparr>))
                     \<lparr>enemiesRef := filter (\<lambda>e. ident e \<noteq> ident e0) (enemiesRef s)\<rparr>))"
  using assms by (induction es) (simp_all add: Let_def)

lemma playerVsEnemies_result:
  assumes "playerRef s = Some p"
  shows "\<exists>s'. addsParticles s s' \<and>
           playerVsEnemies env es s =
             (case find (checkCollision p) es of
                None \<Rightarrow> Inr s
              | Some e0 \<Rightarrow>
                  Inr (s'\<lparr>playerRef := Some (p\<lparr>health := health p - 20\<rparr>),
                          enemiesRef := filter (\<lambda>e. ident e \<noteq> ident e0) (enemiesRef s)\<rparr>))"
proof (cases "find (checkCollision p) es")
  case None
  then show ?thesis
    using playerVsEnemies_find [OF assms, of env es] by (auto intro: exI [of _ s])
next
  case (Some e0)
  define t where "t = createExplosion env (position e0) (radius e0) ''#ffbe0b'' (radius e0 / 2)
                        (s\<lparr>playerRef := Some (p\<lparr>health := health p - 20\<rparr>)\<rparr>)"
  have "addsParticles (s\<lparr>playerRef := Some (p\<lparr>health := health p - 20\<rparr>)\<rparr>) t"
    unfolding t_def by (rule createExplosion_adds)
  then obtain s' where ad: "addsParticles s s'"
    and t: "t = s'\<lparr>playerRef := Some (p\<lparr>health := health p - 20\<rparr>)\<rparr>"
    using addsParticles_absorb_playerRef by blast
  have "playerVsEnemies env es s =
          Inr (t\<lparr>enemiesRef := filter (\<lambda>e. ident e \<noteq> ident e0) (enemiesRef s)\<rparr>)"
    using playerVsEnemies_find [OF assms, of env es] Some by (simp add: t_def)
  then show ?thesis
    using ad Some unfolding t by auto
qed

lemma hitsPlayer_health [simp]: "hitsPlayer (p\<lparr>health := v\<rparr>) = hitsPlayer p"
  by (rule ext) (simp add: hitsPlayer_def checkCollision_def)

lemma lasersVsPlayer_result:
  assumes "playerRef s = Some p"
  shows "\<exists>s'. addsParticles s s' \<and>
           lasersVsPlayer env ls (pl, s) =
             Inr (pl @ filter (\<lambda>l. \<not> hitsPlayer p l) ls,
                  s'\<lparr>playerRef :=
                       Some (p\<lparr>health := health p - 10 * real (length (filter (hitsPlayer p) ls))\<rparr>)\<rparr>)"
  using assms
proof (induction ls arbitrary: pl s p)
  case Nil
  have "s = s\<lparr>playerRef := Some (p\<lparr>health := health p\<rparr>)\<rparr>"
    using Nil by simp
  then show ?case
    using addsParticles_refl [of s] by (auto intro!: exI [of _ s])
next
  case (Cons l ls)
  show ?case
  proof (cases "hitsPlayer p l")
    case True
    define p1 where "p1 = p\<lparr>health := health p - 10\<rparr>"
    define s1 where "s1 = s\<lparr>playerRef := Some p1\<rparr>"
    define s2 where "s2 = createExplosion env (position l) 10 ''#ff4136'' 3 s1"
    have step: "lasersVsPlayer env (l # ls) (pl, s) = lasersVsPlayer env ls (pl, s2)"
      using True Cons.prems by (simp add: hitsPlayer_def p1_def s1_def s2_def Let_def)
    have p2: "playerRef s2 = Some p1"
      by (simp add: s2_def s1_def)
    obtain s'' where ad: "addsParticles s2 s''"
      and r: "lasersVsPlayer env ls (pl, s2) =
             Inr (pl @ filter (\<lambda>l. \<not> hitsPlayer p1 l) ls,
                  s''\<lparr>playerRef :=
                       Some (p1\<lparr>health := health p1 - 10 * real (length (filter (hitsPlayer p1) ls))\<rparr>)\<rparr>)"
      using Cons.IH [OF p2, of pl] by blast
    have "addsParticles s1 s''"
      using addsParticles_trans [OF createExplosion_adds ad [unfolded s2_def]] .
    then obtain s' where ad': "addsParticles s s'" and s'': "s'' = s'\<lparr>playerRef := Some p1\<rparr>"
      unfolding s1_def using addsParticles_absorb_playerRef by blast
    have hp: "hitsPlayer p1 = hitsPlayer p"
      by (simp add: p1_def)
    have "lasersVsPlayer env (l # ls) (pl, s) =
             Inr (pl @ filter (\<lambda>l. \<not> hitsPlayer p l) (l # ls),
                  s'\<lparr>playerRef :=
                       Some (p\<lparr>health := health p - 10 * real (length (filter (hitsPlayer p) (l # ls)))\<rparr>)\<rparr>)"
      unfolding step r hp s'' using True by (simp add: p1_def algebra_simps)
    with ad' show ?thesis by blast
  next
    case False
    have step: "lasersVsPlayer env (l # ls) (pl, s) = lasersVsPlayer env ls (pl @ [l], s)"
      using False Cons.prems unfolding hitsPlayer_def by auto
    show ?thesis
      unfolding step using Cons.IH [OF Cons.prems, of "pl @ [l]"] False by simp
  qed
qed

lemma playerDamage_result:
  assumes "playerRef s = Some p"
  shows "\<exists>s'. addsParticles s s' \<and>
           playerDamage env s =
             Inr (s'\<lparr>playerRef := Some (p\<lparr>health := healthAfterDamage p (enemiesRef s) (lasersRef s)\<rparr>),
                     enemiesRef := enemiesAfterRam p (enemiesRef s),
                     lasersRef := filter (\<lambda>l. \<not> hitsPlayer p l) (lasersRef s)\<rparr>)"
proof -
  define p1 where "p1 = (case find (checkCollision p) (enemiesRef s) of
                           None \<Rightarrow> p | Some e0 \<Rightarrow> p\<lparr>health := health p - 20\<rparr>)"
  define E where "E = enemiesAfterRam p (enemiesRef s)"
  define L where "L = filter (\<lambda>l. \<not> hitsPlayer p l) (lasersRef s)"
  define n where "n = real (length (filter (hitsPlayer p) (lasersRef s)))"
  obtain sa where ada: "addsParticles s sa"
    and ra: "playerVsEnemies env (enemiesRef s) s =
             (case find (checkCollision p) (enemiesRef s) of
                None \<Rightarrow> Inr s
              | Some e0 \<Rightarrow>
                  Inr (sa\<lparr>playerRef := Some (p\<lparr>health := health p - 20\<rparr>),
                          enemiesRef := filter (\<lambda>e. ident e \<noteq> ident e0) (enemiesRef s)\<rparr>))"
    using playerVsEnemies_result [OF assms, of env "enemiesRef s"] by blast
  obtain sb where adb: "addsParticles s sb"
    and rb: "playerVsEnemies env (enemiesRef s) s = Inr (sb\<lparr>playerRef := Some p1, enemiesRef := E\<rparr>)"
  proof (cases "find (checkCollision p) (enemiesRef s)")
    case None
    have "s = s\<lparr>playerRef := Some p1, enemiesRef := E\<rparr>"
      using None assms by (simp add: p1_def E_def enemiesAfterRam_def)
    then have "playerVsEnemies env (enemiesRef s) s = Inr (s\<lparr>playerRef := Some p1, enemiesRef := E\<rparr>)"
      using ra None by simp
    then show ?thesis
      using that [of s] by simp
  next
    case (Some e0)
    then have "playerVsEnemies env (enemiesRef s) s = Inr (sa\<lparr>playerRef := Some p1, enemiesRef := E\<rparr>)"
      using ra by (simp add: p1_def E_def enemiesAfterRam_def)
    then show ?thesis
      using that [of sa] ada by simp
  qed
  define s1 where "s1 = sb\<lparr>playerRef := Some p1, enemiesRef := E\<rparr>"
  have p1s: "playerRef s1 = Some p1" and l1: "lasersRef s1 = lasersRef s"
    using addsParticles_frame [OF adb] by (simp_all add: s1_def)
  have hp: "hitsPlayer p1 = hitsPlayer p"
    by (simp add: p1_def split: option.splits)
  obtain sc where adc: "addsParticles s1 sc"
    and rc: "lasersVsPlayer env (lasersRef s1) ([], s1) =
             Inr ([] @ filter (\<lambda>l. \<not> hitsPlayer p1 l) (lasersRef s1),
                  sc\<lparr>playerRef :=
                       Some (p1\<lparr>health := health p1 - 10 * real (length (filter (hitsPlayer p1) (lasersRef s1)))\<rparr>)\<rparr>)"
    using lasersVsPlayer_result [OF p1s, of env "lasersRef s1" "[]"] by blast
  from adb obtain ps k where sb: "sb = s\<lparr>particlesRef := particlesRef s @ ps, randomCalls := k\<rparr>"
    and ps: "list_all (\<lambda>p. life p = 1) ps"
    unfolding addsParticles_def by blast
  from adc obtain qs j where sc: "sc = s1\<lparr>particlesRef := particlesRef s1 @ qs, randomCalls := j\<rparr>"
    and qs: "list_all (\<lambda>p. life p = 1) qs"
    unfolding addsParticles_def by blast
  define s' where "s' = s\<lparr>particlesRef := particlesRef s @ (ps @ qs), randomCalls := j\<rparr>"
  have ad': "addsParticles s s'"
    unfolding addsParticles_def s'_def using ps qs by (metis list_all_append)
  have hh: "p1\<lparr>health := health p1 - 10 * n\<rparr> =
            p\<lparr>health := healthAfterDamage p (enemiesRef s) (lasersRef s)\<rparr>"
    by (simp add: p1_def healthAfterDamage_def n_def split: option.splits)
  have rc': "lasersVsPlayer env (lasersRef s1) ([], s1) =
             Inr (L, sc\<lparr>playerRef := Some (p1\<lparr>health := health p1 - 10 * n\<rparr>)\<rparr>)"
    using rc by (simp add: l1 hp L_def n_def)
  have "playerDamage env s =
          (case lasersVsPlayer env (lasersRef s1) ([], s1) of
             Inl x \<Rightarrow> Inl x
           | Inr (playerLasers, s2) \<Rightarrow> Inr (s2\<lparr>lasersRef := playerLasers\<rparr>))"
    unfolding playerDamage_def rb bindF_def s1_def by simp
  then have "playerDamage env s =
          Inr (sc\<lparr>playerRef := Some (p1\<lparr>health := health p1 - 10 * n\<rparr>), lasersRef := L\<rparr>)"
    by (simp add: rc')
  also have "sc\<lparr>playerRef := Some (p1\<lparr>health := health p1 - 10 * n\<rparr>), lasersRef := L\<rparr> =
             s'\<lparr>playerRef := Some (p\<lparr>health := healthAfterDamage p (enemiesRef s) (lasersRef s)\<rparr>),
                enemiesRef := E, lasersRef := L\<rparr>"
    unfolding hh by (simp add: sc s1_def sb s'_def)
  finally show ?thesis
    using ad' unfolding E_def L_def by blast
qed

lemma playerCollisions_absent:
  "playerRef s = None \<Longrightarrow> playerCollisions env s = Inr s"
  by (simp add: playerCollisions_def)

lemma playerCollisions_result:
  assumes "playerRef s = Some p"
  shows "\<exists>s'. addsParticles s s' \<and>
           playerCollisions env s =
             Inr (if healthAfterDamage p (enemiesRef s) (lasersRef s) \<le> 0
                  then s'\<lparr>playerRef := None,
                          enemiesRef := enemiesAfterRam p (enemiesRef s),
                          lasersRef := filter (\<lambda>l. \<not> hitsPlayer p l) (lasersRef s),
                          timeouts := timeouts s @ [(1000, GameOver)]\<rparr>
                  else s'\<lparr>playerRef := Some (p\<lparr>health := healthAfterDamage p (enemiesRef s) (lasersRef s)\<rparr>),
                          enemiesRef := enemiesAfterRam p (enemiesRef s),
                          lasersRef := filter (\<lambda>l. \<not> hitsPlayer p l) (lasersRef s)\<rparr>)"
proof -
  define H where "H = healthAfterDamage p (enemiesRef s) (lasersRef s)"
  define E where "E = enemiesAfterRam p (enemiesRef s)"
  define L where "L = filter (\<lambda>l. \<not> hitsPlayer p l) (lasersRef s)"
  obtain sa where ada: "addsParticles s sa"
    and ra: "playerDamage env s = Inr (sa\<lparr>playerRef := Some (p\<lparr>health := H\<rparr>), enemiesRef := E, lasersRef := L\<rparr>)"
    using playerDamage_result [OF assms, of env] unfolding H_def E_def L_def by blast
  define sd where "sd = sa\<lparr>playerRef := Some (p\<lparr>health := H\<rparr>), enemiesRef := E, lasersRef := L\<rparr>"
  have pc: "playerCollisions env s = playerDeathCheck env sd"
    using assms by (simp add: playerCollisions_def ra bindF_def sd_def)
  show ?thesis
  proof (cases "H \<le> 0")
    case False
    then have "playerDeathCheck env sd = Inr sd"
      by (simp add: playerDeathCheck_def sd_def)
    then show ?thesis
      unfolding pc using False ada by (auto simp add: sd_def H_def E_def L_def)
  next
    case True
    define t where "t = createExplosion env (position p) 40 ''#00f2ff'' 20 sd"
    have dc: "playerDeathCheck env sd =
              Inr (t\<lparr>playerRef := None, timeouts := timeouts t @ [(1000, GameOver)]\<rparr>)"
      using True by (simp add: playerDeathCheck_def sd_def t_def Let_def)
    have adt: "addsParticles sd t"
      unfolding t_def by (rule createExplosion_adds)
    from ada obtain ps k where sa: "sa = s\<lparr>particlesRef := particlesRef s @ ps, randomCalls := k\<rparr>"
      and ps: "list_all (\<lambda>p. life p = 1) ps"
      unfolding addsParticles_def by blast
    from adt obtain qs j where t: "t = sd\<lparr>particlesRef := particlesRef sd @ qs, randomCalls := j\<rparr>"
      and qs: "list_all (\<lambda>p. life p = 1) qs"
      unfolding addsParticles_def by blast
    define s' where "s' = s\<lparr>particlesRef := particlesRef s @ (ps @ qs), randomCalls := j\<rparr>"
    have ad': "addsParticles s s'"
      unfolding addsParticles_def s'_def using ps qs by (metis list_all_append)
    have "t\<lparr>playerRef := None, timeouts := timeouts t @ [(1000, GameOver)]\<rparr> =
          s'\<lparr>playerRef := None, enemiesRef := E, lasersRef := L,
             timeouts := timeouts s @ [(1000, GameOver)]\<rparr>"
      by (simp add: t sd_def sa s'_def)
    then show ?thesis
      unfolding pc dc using True ad' by (auto simp add: H_def E_def L_def)
  qed
qed

lemma find_first:
  assumes "\<forall>y\<in>set pre. \<not> P y" and "P x"
  shows "find P (pre @ x # post) = Some x"
  using assms by (induction pre) simp_all

lemma filter_ident_distinct:
  assumes "distinct (map ident (pre @ e0 # post))"
  shows "filter (\<lambda>e. ident e \<noteq> ident e0) (pre @ e0 # post) = pre @ post"
proof -
  have "ident e0 \<notin> ident ` set pre" "ident e0 \<notin> ident ` set post"
    using assms by auto
  then have "\<forall>e\<in>set pre. ident e \<noteq> ident e0" "\<forall>e\<in>set post. ident e \<noteq> ident e0"
    by (metis imageI)+
  then show ?thesis
    by (simp add: filter_id_conv)
qed

subsection \<open>Score, first overlap and factions\<close>

lemma sweep_shape:
  "map (\<lambda>(e, d). (ident e, emaxHealth e)) (sweep es ls) = map (\<lambda>e. (ident e, emaxHealth e)) es"
  by (induction es arbitrary: ls) (simp_all add: Let_def)

lemma sweepLasers_keeps_enemy_lasers:
  "filter (\<lambda>l. \<not> isPlayerLaser l) (sweepLasers es ls) = filter (\<lambda>l. \<not> isPlayerLaser l) ls"
proof (induction es arbitrary: ls)
  case Nil
  show ?case by simp
next
  case (Cons e es)
  have "filter (\<lambda>l. \<not> isPlayerLaser l) (filter (\<lambda>l. \<not> hitBy e l) ls) =
        filter (\<lambda>l. \<not> isPlayerLaser l) ls"
    by (induction ls) (auto simp add: hitBy_def)
  then show ?case
    using Cons.IH [of "filter (\<lambda>l. \<not> hitBy e l) ls"] by simp
qed

text \<open>
  Claim C4. In the sweep of the lasers against the enemies, every enemy destroyed by the
  player's lasers (hit at least once, with a resulting health of at most 0) adds exactly
  \<open>\<lfloor>maxHealth * 5\<rfloor>\<close> to the score, once, and is left out of the enemy collection; the other
  enemies stay, in order, and add nothing. The sweep pairs each enemy of the collection, in
  order and with its id and \<^verbatim>\<open>maxHealth\<close> unchanged, with whether it is destroyed.
\<close>

theorem enemyCollisions_score:
  "enemiesRef (enemyCollisions env s) =
     map fst (filter (\<lambda>(e, d). \<not> d) (sweep (enemiesRef s) (lasersRef s))) \<and>
   score (enemyCollisions env s) =
     score s + sum_list (map (\<lambda>(e, d). if d then of_int \<lfloor>emaxHealth e * 5\<rfloor> else 0)
                           (sweep (enemiesRef s) (lasersRef s))) \<and>
   map (\<lambda>(e, d). (ident e, emaxHealth e)) (sweep (enemiesRef s) (lasersRef s)) =
     map (\<lambda>e. (ident e, emaxHealth e)) (enemiesRef s)"
proof -
  obtain s' where "enemyCollisions env s =
          s'\<lparr>enemiesRef := sweepSurvivors (sweep (enemiesRef s) (lasersRef s)),
             lasersRef := sweepLasers (enemiesRef s) (lasersRef s),
             score := score s + sweepScore (sweep (enemiesRef s) (lasersRef s))\<rparr>"
    using enemyCollisions_result [of env s] by blast
  then show ?thesis
    by (simp add: sweepSurvivors_def sweepScore_def sweep_shape)
qed

theorem enemyCollisions_score_witness:
  "enemiesRef (enemyCollisions demoEnv strikeWorld) = [demoMeteor 2] \<and>
   score (enemyCollisions demoEnv strikeWorld) = 37"
  using enemyCollisions_score [of demoEnv strikeWorld]
  by (simp add: strikeWorld_def demoWorld_def demoEnv_def demoPlayer_def demoMeteor_def
      demoEnemyLaser_def hitBy_def checkCollision_squares Let_def)

text \<open>
  Claim C3. When the player exists and overlaps at least one enemy at the player-against-
  enemies loop, the loop takes exactly 20 from the player's health, removes exactly one enemy,
  the first overlapping one in the order of the collection, and leaves the score as it is;
  the enemies after it, overlapping or not, are still in the collection when the player block
  ends, which is the end of the tick. The enemy is removed through its id, so the ids of the
  enemies are taken to be distinct, as the data model has them.
\<close>

theorem playerVsEnemies_first_overlap:
  assumes "playerRef s = Some p"
    and "distinct (map ident (enemiesRef s))"
    and "\<exists>e\<in>set (enemiesRef s). checkCollision p e"
  shows "\<exists>pre e0 post s1 s2.
           enemiesRef s = pre @ e0 # post \<and>
           list_all (\<lambda>e. \<not> checkCollision p e) pre \<and> checkCollision p e0 \<and>
           playerVsEnemies env (enemiesRef s) s = Inr s1 \<and>
           playerRef s1 = Some (p\<lparr>health := health p - 20\<rparr>) \<and>
           enemiesRef s1 = pre @ post \<and>
           score s1 = score s \<and>
           playerCollisions env s = Inr s2 \<and>
           enemiesRef s2 = pre @ post \<and>
           score s2 = score s"
proof -
  from assms(3) obtain pre e0 post where sp: "enemiesRef s = pre @ e0 # post"
    and hit: "checkCollision p e0" and miss: "\<forall>e\<in>set pre. \<not> checkCollision p e"
    using split_list_first_prop [of "enemiesRef s" "checkCollision p"] by blast
  have fnd: "find (checkCollision p) (enemiesRef s) = Some e0"
    unfolding sp by (rule find_first [OF miss hit])
  have flt: "filter (\<lambda>e. ident e \<noteq> ident e0) (enemiesRef s) = pre @ post"
    using assms(2) unfolding sp by (rule filter_ident_distinct)
  obtain sa where ada: "addsParticles s sa"
    and r1: "playerVsEnemies env (enemiesRef s) s =
             Inr (sa\<lparr>playerRef := Some (p\<lparr>health := health p - 20\<rparr>), enemiesRef := pre @ post\<rparr>)"
    using playerVsEnemies_result [OF assms(1), of env "enemiesRef s"] fnd flt by auto
  obtain sb where adb: "addsParticles s sb"
    and r2: "playerCollisions env s =
             Inr (if healthAfterDamage p (enemiesRef s) (lasersRef s) \<le> 0
                  then sb\<lparr>playerRef := None,
                          enemiesRef := enemiesAfterRam p (enemiesRef s),
                          lasersRef := filter (\<lambda>l. \<not> hitsPlayer p l) (lasersRef s),
                          timeouts := timeouts s @ [(1000, GameOver)]\<rparr>
                  else sb\<lparr>playerRef := Some (p\<lparr>health := healthAfterDamage p (enemiesRef s) (lasersRef s)\<rparr>),
                          enemiesRef := enemiesAfterRam p (enemiesRef s),
                          lasersRef := filter (\<lambda>l. \<not> hitsPlayer p l) (lasersRef s)\<rparr>)"
    using playerCollisions_result [OF assms(1), of env] by blast
  have ram: "enemiesAfterRam p (enemiesRef s) = pre @ post"
    by (simp add: enemiesAfterRam_def fnd flt)
  define s1 where "s1 = sa\<lparr>playerRef := Some (p\<lparr>health := health p - 20\<rparr>), enemiesRef := pre @ post\<rparr>"
  define s2 where "s2 = (if healthAfterDamage p (enemiesRef s) (lasersRef s) \<le> 0
                  then sb\<lparr>playerRef := None,
                          enemiesRef := enemiesAfterRam p (enemiesRef s),
                          lasersRef := filter (\<lambda>l. \<not> hitsPlayer p l) (lasersRef s),
                          timeouts := timeouts s @ [(1000, GameOver)]\<rparr>
                  else sb\<lparr>playerRef := Some (p\<lparr>health := healthAfterDamage p (enemiesRef s) (lasersRef s)\<rparr>),
                          enemiesRef := enemiesAfterRam p (enemiesRef s),
                          lasersRef := filter (\<lambda>l. \<not> hitsPlayer p l) (lasersRef s)\<rparr>)"
  have "list_all (\<lambda>e. \<not> checkCollision p e) pre"
    using miss by (simp add: list_all_iff)
  moreover have "playerRef s1 = Some (p\<lparr>health := health p - 20\<rparr>)" "enemiesRef s1 = pre @ post"
    by (simp_all add: s1_def)
  moreover have "score s1 = score s"
    using addsParticles_frame(4) [OF ada] by (simp add: s1_def)
  moreover have "enemiesRef s2 = pre @ post"
    by (simp add: s2_def ram)
  moreover have "score s2 = score s"
    using addsParticles_frame(4) [OF adb] by (simp add: s2_def)
  ultimately show ?thesis
    using sp hit r1 r2 unfolding s1_def [symmetric] s2_def [symmetric] by blast
qed

theorem playerVsEnemies_first_overlap_witness:
  "playerRef demoWorld = Some demoPlayer \<and>
   distinct (map ident (enemiesRef demoWorld)) \<and>
   (\<exists>e\<in>set (enemiesRef demoWorld). checkCollision demoPlayer e) \<and>
   (\<exists>pre e0 post s1 s2.
           enemiesRef demoWorld = pre @ e0 # post \<and>
           list_all (\<lambda>e. \<not> checkCollision demoPlayer e) pre \<and> checkCollision demoPlayer e0 \<and>
           playerVsEnemies demoEnv (enemiesRef demoWorld) demoWorld = Inr s1 \<and>
           playerRef s1 = Some (demoPlayer\<lparr>health := health demoPlayer - 20\<rparr>) \<and>
           enemiesRef s1 = pre @ post \<and>
           score s1 = score demoWorld \<and>
           playerCollisions demoEnv demoWorld = Inr s2 \<and>
           enemiesRef s2 = pre @ post \<and>
           score s2 = score demoWorld)"
proof -
  have h1: "playerRef demoWorld = Some demoPlayer"
    by (simp add: demoWorld_def)
  have h2: "distinct (map ident (enemiesRef demoWorld))"
    by (simp add: demoWorld_def demoMeteor_def)
  have "checkCollision demoPlayer (demoMeteor 1)"
    by (simp add: checkCollision_def distance_def demoPlayer_def demoMeteor_def)
  then have h3: "\<exists>e\<in>set (enemiesRef demoWorld). checkCollision demoPlayer e"
    by (simp add: demoWorld_def)
  show ?thesis
    using h1 h2 h3 playerVsEnemies_first_overlap [OF h1 h2 h3, of demoEnv] by blast
qed

text \<open>
  Claim C10. Faction immunity. In the sweep against an enemy, the enemy's health goes down
  by 5 for each player laser that overlaps it and by nothing else, and every enemy laser,
  overlapping or not, is kept: the enemy lasers after the whole sweep are those before it.
  In the loop of the lasers against the player, the player's health goes down by 10 for each
  enemy laser that overlaps the player and by nothing else, and every player laser is kept.
\<close>

theorem faction_immunity:
  "ehealth (fst (lasersVsEnemy env ls (e, d, nl, s))) =
     ehealth e - 5 * real (length (filter (\<lambda>l. isPlayerLaser l \<and> checkCollision l e) ls)) \<and>
   filter (\<lambda>l. \<not> isPlayerLaser l) (fst (snd (snd (lasersVsEnemy env ls (e, d, nl, s))))) =
     filter (\<lambda>l. \<not> isPlayerLaser l) (nl @ ls) \<and>
   filter (\<lambda>l. \<not> isPlayerLaser l) (lasersRef (enemyCollisions env s)) =
     filter (\<lambda>l. \<not> isPlayerLaser l) (lasersRef s) \<and>
   (playerRef s = Some p \<longrightarrow>
      (\<exists>pl' s'. lasersVsPlayer env ls (pl, s) = Inr (pl', s') \<and>
         playerRef s' =
           Some (p\<lparr>health := health p -
                   10 * real (length (filter (\<lambda>l. \<not> isPlayerLaser l \<and> checkCollision l p) ls))\<rparr>) \<and>
         filter isPlayerLaser pl' = filter isPlayerLaser (pl @ ls)))"
proof -
  have hb: "hitBy e = (\<lambda>l. isPlayerLaser l \<and> checkCollision l e)"
    by (rule ext) (simp add: hitBy_def)
  have keep: "filter (\<lambda>l. \<not> isPlayerLaser l) (filter (\<lambda>l. \<not> hitBy e l) ls) =
              filter (\<lambda>l. \<not> isPlayerLaser l) ls"
    by (induction ls) (auto simp add: hitBy_def)
  obtain s' where r: "lasersVsEnemy env ls (e, d, nl, s) =
          (e\<lparr>ehealth := ehealth e - 5 * real (length (filter (hitBy e) ls))\<rparr>,
           d \<or> (filter (hitBy e) ls \<noteq> [] \<and>
                ehealth e - 5 * real (length (filter (hitBy e) ls)) \<le> 0),
           nl @ filter (\<lambda>l. \<not> hitBy e l) ls,
           s')"
    using lasersVsEnemy_result [of env ls e d nl s] by blast
  have c1: "ehealth (fst (lasersVsEnemy env ls (e, d, nl, s))) =
     ehealth e - 5 * real (length (filter (\<lambda>l. isPlayerLaser l \<and> checkCollision l e) ls))"
    unfolding r by (simp add: hb)
  have c2: "filter (\<lambda>l. \<not> isPlayerLaser l) (fst (snd (snd (lasersVsEnemy env ls (e, d, nl, s))))) =
     filter (\<lambda>l. \<not> isPlayerLaser l) (nl @ ls)"
    unfolding r using keep by simp
  obtain t where "enemyCollisions env s =
          t\<lparr>enemiesRef := sweepSurvivors (sweep (enemiesRef s) (lasersRef s)),
             lasersRef := sweepLasers (enemiesRef s) (lasersRef s),
             score := score s + sweepScore (sweep (enemiesRef s) (lasersRef s))\<rparr>"
    using enemyCollisions_result [of env s] by blast
  then have c3: "filter (\<lambda>l. \<not> isPlayerLaser l) (lasersRef (enemyCollisions env s)) =
     filter (\<lambda>l. \<not> isPlayerLaser l) (lasersRef s)"
    by (simp add: sweepLasers_keeps_enemy_lasers)
  have c4: "\<exists>pl' s'. lasersVsPlayer env ls (pl, s) = Inr (pl', s') \<and>
         playerRef s' =
           Some (p\<lparr>health := health p -
                   10 * real (length (filter (\<lambda>l. \<not> isPlayerLaser l \<and> checkCollision l p) ls))\<rparr>) \<and>
         filter isPlayerLaser pl' = filter isPlayerLaser (pl @ ls)"
    if pr: "playerRef s = Some p"
  proof -
    have hp: "hitsPlayer p = (\<lambda>l. \<not> isPlayerLaser l \<and> checkCollision l p)"
      by (rule ext) (simp add: hitsPlayer_def)
    have keep': "filter isPlayerLaser (filter (\<lambda>l. \<not> hitsPlayer p l) ls) = filter isPlayerLaser ls"
      by (induction ls) (auto simp add: hitsPlayer_def)
    obtain u where "lasersVsPlayer env ls (pl, s) =
             Inr (pl @ filter (\<lambda>l. \<not> hitsPlayer p l) ls,
                  u\<lparr>playerRef :=
                       Some (p\<lparr>health := health p - 10 * real (length (filter (hitsPlayer p) ls))\<rparr>)\<rparr>)"
      using lasersVsPlayer_result [OF pr, of env ls pl] by blast
    then show ?thesis
      using keep' by (simp add: hp)
  qed
  show ?thesis
    using c1 c2 c3 c4 by blast
qed

theorem faction_immunity_witness:
  "playerRef demoWorld = Some demoPlayer \<and>
   (\<exists>pl' s'. lasersVsPlayer demoEnv [demoEnemyLaser] ([], demoWorld) = Inr (pl', s') \<and>
         playerRef s' = Some (demoPlayer\<lparr>health := 90\<rparr>) \<and>
         filter isPlayerLaser pl' = [])"
proof -
  have h: "playerRef demoWorld = Some demoPlayer"
    by (simp add: demoWorld_def)
  have c: "checkCollision demoEnemyLaser demoPlayer"
    by (simp add: checkCollision_def distance_def demoPlayer_def demoEnemyLaser_def)
  have l: "\<not> isPlayerLaser demoEnemyLaser"
    by (simp add: demoEnemyLaser_def)
  have hl: "health demoPlayer = 100"
    by (simp add: demoPlayer_def)
  show ?thesis
    using h faction_immunity [of demoEnv "[demoEnemyLaser]" "demoMeteor 1" False "[]" demoWorld demoPlayer "[]"]
    by (simp add: c l hl)
qed

subsection \<open>The phases before the collisions\<close>

lemma handlePlayerControls_absent:
  "playerRef s = None \<Longrightarrow> handlePlayerControls env s = s"
  by (simp add: handlePlayerControls_def)

lemma handlePlayerControls_frame:
  "gameStatus (handlePlayerControls env s) = gameStatus s"
  "score (handlePlayerControls env s) = score s"
  "enemiesRef (handlePlayerControls env s) = enemiesRef s"
  "timeouts (handlePlayerControls env s) = timeouts s"
  "width (handlePlayerControls env s) = width s"
  "height (handlePlayerControls env s) = height s"
  by (simp_all add: handlePlayerControls_def Let_def split: option.splits)

lemma handlePlayerControls_present:
  "playerRef s = Some p \<Longrightarrow> \<exists>p'. playerRef (handlePlayerControls env s) = Some p'"
  by (simp add: handlePlayerControls_def Let_def)

lemma updatePlayer_result:
  "\<exists>s1. updatePlayer env w h s = Inr s1 \<and>
        gameStatus s1 = gameStatus s \<and> score s1 = score s \<and>
        enemiesRef s1 = enemiesRef s \<and> timeouts s1 = timeouts s \<and>
        width s1 = width s \<and> height s1 = height s \<and>
        (playerRef s1 = None \<longleftrightarrow> playerRef s = None) \<and>
        (playerRef s = None \<longrightarrow> s1 = s)"
proof (cases "playerRef s")
  case None
  then show ?thesis by (simp add: updatePlayer_def)
next
  case (Some p)
  then obtain p' where p': "playerRef (handlePlayerControls env s) = Some p'"
    using handlePlayerControls_present by blast
  have "updatePlayer env w h s =
          Inr ((handlePlayerControls env s)\<lparr>playerRef := Some (updatePosition w h p')\<rparr>)"
    using Some p' by (simp add: updatePlayer_def Let_def)
  then show ?thesis
    using Some by (simp add: handlePlayerControls_frame)
qed

lemma isEnemyShot_new:
  "isEnemyShot env \<lparr>ident = EnemyLaserId (dateNow env) r, position = q, velocity = v,
                     radius = c, isPlayerLaser = False\<rparr>"
  by (simp add: isEnemyShot_def)

lemma enemyAI_result:
  "\<exists>new k. enemyAI env es s = Inr (s\<lparr>lasersRef := lasersRef s @ new, randomCalls := k\<rparr>) \<and>
           list_all (isEnemyShot env) new \<and> (playerRef s = None \<longrightarrow> new = [])"
proof (induction es arbitrary: s)
  case Nil
  have "enemyAI env [] s = Inr (s\<lparr>lasersRef := lasersRef s @ [], randomCalls := randomCalls s\<rparr>)"
    by simp
  moreover have "list_all (isEnemyShot env) []" by simp
  ultimately show ?case by blast
next
  case (Cons e es)
  show ?case
  proof (cases "etype e = Saucer \<or> etype e = Mothership")
    case False
    then have "enemyAI env (e # es) s = enemyAI env es s" by simp
    then show ?thesis using Cons.IH [of s] by simp
  next
    case True
    define k where "k = randomCalls s"
    define s1 where "s1 = s\<lparr>randomCalls := k + 1\<rparr>"
    show ?thesis
    proof (cases "mathRandom env k < 0.01 \<and> playerRef s \<noteq> None")
      case False
      then have step: "enemyAI env (e # es) s = enemyAI env es s1"
        using True by (auto simp add: Let_def k_def s1_def)
      obtain new j where r: "enemyAI env es s1 = Inr (s1\<lparr>lasersRef := lasersRef s1 @ new, randomCalls := j\<rparr>)"
        and n: "list_all (isEnemyShot env) new" "playerRef s1 = None \<longrightarrow> new = []"
        using Cons.IH [of s1] by (elim exE conjE) (rule that)
      have "s1\<lparr>lasersRef := lasersRef s1 @ new, randomCalls := j\<rparr> =
            s\<lparr>lasersRef := lasersRef s @ new, randomCalls := j\<rparr>"
        by (simp add: s1_def)
      then show ?thesis
        unfolding step r using n by (auto simp add: s1_def)
    next
      case fire: True
      then obtain p where p: "playerRef s = Some p" by auto
      define shot where "shot = \<lparr>ident = EnemyLaserId (dateNow env) (mathRandom env (k + 1)),
                                 position = \<lparr>vx = vx (position e), vy = vy (position e)\<rparr>,
                                 velocity = \<lparr>vx = cos (Math_atan2 (vy (position p) - vy (position e))
                                          (vx (position p) - vx (position e))) * ENEMY_LASER_SPEED,
                                             vy = sin (Math_atan2 (vy (position p) - vy (position e))
                                          (vx (position p) - vx (position e))) * ENEMY_LASER_SPEED\<rparr>,
                                 radius = 3,
                                 isPlayerLaser = False\<rparr>"
      define s2 where "s2 = s1\<lparr>lasersRef := lasersRef s1 @ [shot], randomCalls := k + 2\<rparr>"
      have step: "enemyAI env (e # es) s = enemyAI env es s2"
        using True fire p by (simp add: Let_def k_def s1_def s2_def shot_def)
      obtain new j where r: "enemyAI env es s2 = Inr (s2\<lparr>lasersRef := lasersRef s2 @ new, randomCalls := j\<rparr>)"
        and n: "list_all (isEnemyShot env) new"
        using Cons.IH [of s2] by blast
      have sh: "isEnemyShot env shot"
        unfolding shot_def by (rule isEnemyShot_new)
      have "s2\<lparr>lasersRef := lasersRef s2 @ new, randomCalls := j\<rparr> =
            s\<lparr>lasersRef := lasersRef s @ (shot # new), randomCalls := j\<rparr>"
        by (simp add: s2_def s1_def)
      moreover have "list_all (isEnemyShot env) (shot # new)"
        using sh n by simp
      ultimately show ?thesis
        unfolding step r using p by (metis option.distinct(1))
    qed
  qed
qed

lemma bindF_Inr [simp]: "bindF (Inr v) f = f v"
  by (simp add: bindF_def)

lemma beforePlayerCollisions_decomp:
  "\<exists>s1 s3. updatePlayer env (width s) (height s) s = Inr s1 \<and>
           enemyAI env (enemiesRef (moveAndSpawn env deltaTime (width s) (height s) s1))
             (moveAndSpawn env deltaTime (width s) (height s) s1) = Inr s3 \<and>
           beforePlayerCollisions env deltaTime s = Inr (enemyCollisions env s3)"
proof -
  obtain s1 where s1: "updatePlayer env (width s) (height s) s = Inr s1"
    using updatePlayer_result [of env "width s" "height s" s] by blast
  obtain s3 where s3: "enemyAI env (enemiesRef (moveAndSpawn env deltaTime (width s) (height s) s1))
             (moveAndSpawn env deltaTime (width s) (height s) s1) = Inr s3"
    using enemyAI_result [of env "enemiesRef (moveAndSpawn env deltaTime (width s) (height s) s1)"
        "moveAndSpawn env deltaTime (width s) (height s) s1"] by blast
  have "beforePlayerCollisions env deltaTime s = Inr (enemyCollisions env s3)"
    by (simp add: beforePlayerCollisions_def Let_def s1 s3)
  with s1 s3 show ?thesis by blast
qed

subsection \<open>The whole tick\<close>

lemmas tick_defs = beforePlayerCollisions_def updatePlayer_def handlePlayerControls_def
  moveAndSpawn_def updateLasers_def updateParticles_def updateEnemies_def spawnEnemy_def
  updateEnemy_def updateParticle_def updatePosition_def inViewport_def drawRandomCalls_def
  randomBetween_def enemyCollisions_def Let_def
  PLAYER_THRUST_def PLAYER_TURN_SPEED_def PLAYER_MAX_SPEED_def PLAYER_FRICTION_def
  PLAYER_LASER_SPEED_def PLAYER_SHOOT_COOLDOWN_def

lemmas demo_defs = demoWorld_def demoEnv_def demoPlayer_def demoMeteor_def demoEnemyLaser_def

lemma moveAndSpawn_frame:
  "gameStatus (moveAndSpawn env deltaTime w h s) = gameStatus s"
  "score (moveAndSpawn env deltaTime w h s) = score s"
  "playerRef (moveAndSpawn env deltaTime w h s) = playerRef s"
  "timeouts (moveAndSpawn env deltaTime w h s) = timeouts s"
  "width (moveAndSpawn env deltaTime w h s) = width s"
  "height (moveAndSpawn env deltaTime w h s) = height s"
  "lasersRef (moveAndSpawn env deltaTime w h s) =
     map (updatePosition w h) (filter (inViewport w h) (lasersRef s))"
  "particlesRef (moveAndSpawn env deltaTime w h s) =
     map (updateParticle deltaTime w h) (filter (\<lambda>p. life p > 0) (particlesRef s))"
  by (simp_all add: moveAndSpawn_def spawnEnemy_def updateEnemies_def updateParticles_def
      updateLasers_def Let_def split_def)

lemma sweepLasers_subset: "set (sweepLasers es ls) \<subseteq> set ls"
proof (induction es arbitrary: ls)
  case Nil
  show ?case by simp
next
  case (Cons e es)
  have "set (sweepLasers es (filter (\<lambda>l. \<not> hitBy e l) ls)) \<subseteq> set (filter (\<lambda>l. \<not> hitBy e l) ls)"
    by (rule Cons.IH)
  then show ?case by auto
qed

lemma enemyCollisions_frame:
  "gameStatus (enemyCollisions env s) = gameStatus s"
  "playerRef (enemyCollisions env s) = playerRef s"
  "timeouts (enemyCollisions env s) = timeouts s"
  "width (enemyCollisions env s) = width s"
  "height (enemyCollisions env s) = height s"
  "lasersRef (enemyCollisions env s) = sweepLasers (enemiesRef s) (lasersRef s)"
proof -
  obtain s' where r: "enemyCollisions env s =
          s'\<lparr>enemiesRef := sweepSurvivors (sweep (enemiesRef s) (lasersRef s)),
             lasersRef := sweepLasers (enemiesRef s) (lasersRef s),
             score := score s + sweepScore (sweep (enemiesRef s) (lasersRef s))\<rparr>"
    and ad: "addsParticles s s'"
    using enemyCollisions_result [of env s] by blast
  show "gameStatus (enemyCollisions env s) = gameStatus s"
    "playerRef (enemyCollisions env s) = playerRef s"
    "timeouts (enemyCollisions env s) = timeouts s"
    "width (enemyCollisions env s) = width s"
    "height (enemyCollisions env s) = height s"
    "lasersRef (enemyCollisions env s) = sweepLasers (enemiesRef s) (lasersRef s)"
    using addsParticles_frame [OF ad] by (simp_all add: r)
qed

lemma beforePlayerCollisions_frame:
  assumes "beforePlayerCollisions env deltaTime s = Inr s0"
  shows "gameStatus s0 = gameStatus s" "timeouts s0 = timeouts s"
    "width s0 = width s" "height s0 = height s"
    "playerRef s0 = None \<longleftrightarrow> playerRef s = None"
proof -
  obtain s1 s3 where s1: "updatePlayer env (width s) (height s) s = Inr s1"
    and s3: "enemyAI env (enemiesRef (moveAndSpawn env deltaTime (width s) (height s) s1))
             (moveAndSpawn env deltaTime (width s) (height s) s1) = Inr s3"
    and b: "beforePlayerCollisions env deltaTime s = Inr (enemyCollisions env s3)"
    using beforePlayerCollisions_decomp [of env s deltaTime] by blast
  have s0: "s0 = enemyCollisions env s3"
    using assms b by simp
  have f1: "gameStatus s1 = gameStatus s" "timeouts s1 = timeouts s"
    "width s1 = width s" "height s1 = height s" "playerRef s1 = None \<longleftrightarrow> playerRef s = None"
    using updatePlayer_result [of env "width s" "height s" s] s1 by auto
  define s2 where "s2 = moveAndSpawn env deltaTime (width s) (height s) s1"
  obtain new k where "enemyAI env (enemiesRef s2) s2 =
      Inr (s2\<lparr>lasersRef := lasersRef s2 @ new, randomCalls := k\<rparr>)"
    using enemyAI_result [of env "enemiesRef s2" s2] by blast
  then have s3eq: "s3 = s2\<lparr>lasersRef := lasersRef s2 @ new, randomCalls := k\<rparr>"
    using s3 by (simp add: s2_def)
  have f3: "gameStatus s3 = gameStatus s1" "timeouts s3 = timeouts s1"
    "width s3 = width s1" "height s3 = height s1" "playerRef s3 = playerRef s1"
    by (simp_all add: s3eq s2_def moveAndSpawn_frame)
  show "gameStatus s0 = gameStatus s" "timeouts s0 = timeouts s"
    "width s0 = width s" "height s0 = height s"
    "playerRef s0 = None \<longleftrightarrow> playerRef s = None"
    using f1 f3 by (simp_all add: s0 enemyCollisions_frame)
qed

lemma beforePlayerCollisions_total:
  "\<exists>s0. beforePlayerCollisions env deltaTime s = Inr s0"
  using beforePlayerCollisions_decomp [of env s deltaTime] by blast

lemma updateAndDraw_ready:
  assumes "canvasReady env" and "beforePlayerCollisions env deltaTime s = Inr s0"
  shows "updateAndDraw env deltaTime s = playerCollisions env s0"
  using assms by (simp add: updateAndDraw_def)

text \<open>
  Claim C8. In a tick that starts with no player, nothing that touches the player faults:
  the player controls leave the state as it is, the enemy fire loop fires no laser (it only
  draws random numbers), the player block of the collisions is skipped, and the tick returns
  normally with the player still absent, the status and the pending timeouts unchanged, and
  no laser in the collection that was not there before.
\<close>

theorem absent_player_is_noop:
  assumes "playerRef s = None"
  shows "handlePlayerControls env s = s \<and>
         (\<exists>k. enemyAI env es s = Inr (s\<lparr>randomCalls := k\<rparr>)) \<and>
         playerCollisions env s = Inr s \<and>
         (\<exists>s'. updateAndDraw env deltaTime s = Inr s' \<and>
               playerRef s' = None \<and>
               gameStatus s' = gameStatus s \<and>
               timeouts s' = timeouts s \<and>
               ident ` set (lasersRef s') \<subseteq> ident ` set (lasersRef s))"
proof -
  have c1: "handlePlayerControls env s = s"
    using assms by (rule handlePlayerControls_absent)
  obtain new k where "enemyAI env es s = Inr (s\<lparr>lasersRef := lasersRef s @ new, randomCalls := k\<rparr>)"
    and "playerRef s = None \<longrightarrow> new = []"
    using enemyAI_result [of env es s] by (elim exE conjE) (rule that)
  then have "enemyAI env es s = Inr (s\<lparr>randomCalls := k\<rparr>)"
    using assms by simp
  then have c2: "\<exists>k. enemyAI env es s = Inr (s\<lparr>randomCalls := k\<rparr>)"
    by blast
  have c3: "playerCollisions env s = Inr s"
    using assms by (rule playerCollisions_absent)
  have c4: "\<exists>s'. updateAndDraw env deltaTime s = Inr s' \<and>
               playerRef s' = None \<and>
               gameStatus s' = gameStatus s \<and>
               timeouts s' = timeouts s \<and>
               ident ` set (lasersRef s') \<subseteq> ident ` set (lasersRef s)"
  proof (cases "canvasReady env")
    case False
    then have "updateAndDraw env deltaTime s = Inr s"
      by (simp add: updateAndDraw_def)
    then show ?thesis
      using assms by simp
  next
    case True
    define w where "w = width s"
    define h where "h = height s"
    obtain s1 s3 where s1: "updatePlayer env w h s = Inr s1"
      and s3: "enemyAI env (enemiesRef (moveAndSpawn env deltaTime w h s1))
               (moveAndSpawn env deltaTime w h s1) = Inr s3"
      and b: "beforePlayerCollisions env deltaTime s = Inr (enemyCollisions env s3)"
      using beforePlayerCollisions_decomp [of env s deltaTime] unfolding w_def h_def by blast
    have s1eq: "s1 = s"
      using updatePlayer_result [of env w h s] s1 assms by auto
    define s2 where "s2 = moveAndSpawn env deltaTime w h s"
    have p2: "playerRef s2 = None"
      using assms by (simp add: s2_def moveAndSpawn_frame)
    obtain new j where "enemyAI env (enemiesRef s2) s2 =
        Inr (s2\<lparr>lasersRef := lasersRef s2 @ new, randomCalls := j\<rparr>)"
      and "playerRef s2 = None \<longrightarrow> new = []"
      using enemyAI_result [of env "enemiesRef s2" s2] by (elim exE conjE) (rule that)
    then have s3eq: "s3 = s2\<lparr>randomCalls := j\<rparr>"
      using s3 p2 by (simp add: s2_def s1eq)
    define s4 where "s4 = enemyCollisions env s3"
    have p4: "playerRef s4 = None"
      by (simp add: s4_def enemyCollisions_frame s3eq p2)
    have u: "updateAndDraw env deltaTime s = Inr s4"
      using updateAndDraw_ready [OF True b] playerCollisions_absent [OF p4]
      by (simp add: s4_def)
    have g: "gameStatus s4 = gameStatus s" "timeouts s4 = timeouts s"
      by (simp_all add: s4_def enemyCollisions_frame s3eq s2_def moveAndSpawn_frame)
    have "lasersRef s4 = sweepLasers (enemiesRef s3) (lasersRef s3)"
      by (simp add: s4_def enemyCollisions_frame)
    then have "set (lasersRef s4) \<subseteq> set (lasersRef s3)"
      using sweepLasers_subset by simp
    moreover have "lasersRef s3 = map (updatePosition w h) (filter (inViewport w h) (lasersRef s))"
      by (simp add: s3eq s2_def moveAndSpawn_frame)
    ultimately have sub: "set (lasersRef s4) \<subseteq> updatePosition w h ` set (lasersRef s)"
      by auto
    have "ident ` set (lasersRef s4) \<subseteq> ident ` set (lasersRef s)"
    proof
      fix i assume "i \<in> ident ` set (lasersRef s4)"
      then obtain l where "l \<in> set (lasersRef s4)" and i: "i = ident l" by auto
      then obtain l0 where l0: "l0 \<in> set (lasersRef s)" and "l = updatePosition w h l0"
        using sub by auto
      then have "i = ident l0" using i by simp
      then show "i \<in> ident ` set (lasersRef s)" using l0 by simp
    qed
    then show ?thesis
      using u p4 g by blast
  qed
  show ?thesis
    using c1 c2 c3 c4 by blast
qed

theorem absent_player_is_noop_witness:
  "playerRef wreckWorld = None \<and>
   handlePlayerControls wreckEnv wreckWorld = wreckWorld \<and>
   (\<exists>k. enemyAI wreckEnv (enemiesRef wreckWorld) wreckWorld = Inr (wreckWorld\<lparr>randomCalls := k\<rparr>)) \<and>
   playerCollisions wreckEnv wreckWorld = Inr wreckWorld \<and>
   (\<exists>s'. updateAndDraw wreckEnv 16 wreckWorld = Inr s' \<and>
         playerRef s' = None \<and>
         gameStatus s' = gameStatus wreckWorld \<and>
         timeouts s' = timeouts wreckWorld \<and>
         ident ` set (lasersRef s') \<subseteq> ident ` set (lasersRef wreckWorld))"
proof -
  have h: "playerRef wreckWorld = None"
    by (simp add: wreckWorld_def)
  show ?thesis
    using h absent_player_is_noop [OF h, of wreckEnv "enemiesRef wreckWorld" 16] by blast
qed

text \<open>
  Claim C7. In a tick in which the player's health, once the damage of the tick is
  resolved, is at most 0, the player ref is cleared within that tick, and the tick does not
  change the status: the change to \<^verbatim>\<open>GameOver\<close> is handed to \<^verbatim>\<open>setTimeout\<close> with a delay of
  1000 ms, so that at the end of the tick the status is still \<^verbatim>\<open>Playing\<close>, and until 1000 ms
  have passed the status is what it would be had the player not died.
\<close>

theorem player_death_defers_game_over:
  assumes "canvasReady env"
    and "gameStatus s = Playing"
    and "damageResolved env deltaTime s = Inr sd"
    and "playerRef sd = Some p"
    and "health p \<le> 0"
  shows "\<exists>s'. updateAndDraw env deltaTime s = Inr s' \<and>
              playerRef s' = None \<and>
              gameStatus s' = Playing \<and>
              timeouts s' = timeouts s @ [(1000, GameOver)] \<and>
              (\<forall>t. t < 1000 \<longrightarrow> gameStatus (runTimeouts t s') = gameStatus (runTimeouts t s))"
proof -
  obtain s0 where b: "beforePlayerCollisions env deltaTime s = Inr s0"
    using beforePlayerCollisions_total by blast
  have fr: "gameStatus s0 = gameStatus s" "timeouts s0 = timeouts s"
    using beforePlayerCollisions_frame [OF b] by simp_all
  have dr: "damageResolved env deltaTime s =
            (if playerRef s0 \<noteq> None then playerDamage env s0 else Inr s0)"
    by (simp add: damageResolved_def b)
  have "playerRef s0 \<noteq> None"
  proof
    assume "playerRef s0 = None"
    then have "sd = s0" using dr assms(3) by simp
    then show False using \<open>playerRef s0 = None\<close> assms(4) by simp
  qed
  then obtain p0 where p0: "playerRef s0 = Some p0" by auto
  define H where "H = healthAfterDamage p0 (enemiesRef s0) (lasersRef s0)"
  obtain sa where "playerDamage env s0 =
             Inr (sa\<lparr>playerRef := Some (p0\<lparr>health := H\<rparr>),
                     enemiesRef := enemiesAfterRam p0 (enemiesRef s0),
                     lasersRef := filter (\<lambda>l. \<not> hitsPlayer p0 l) (lasersRef s0)\<rparr>)"
    using playerDamage_result [OF p0, of env] unfolding H_def by blast
  then have "playerRef sd = Some (p0\<lparr>health := H\<rparr>)"
    using dr assms(3) p0 by auto
  then have "p = p0\<lparr>health := H\<rparr>"
    using assms(4) by simp
  then have dead: "H \<le> 0"
    using assms(5) by simp
  obtain sb where adb: "addsParticles s0 sb"
    and "playerCollisions env s0 =
             Inr (if H \<le> 0
                  then sb\<lparr>playerRef := None,
                          enemiesRef := enemiesAfterRam p0 (enemiesRef s0),
                          lasersRef := filter (\<lambda>l. \<not> hitsPlayer p0 l) (lasersRef s0),
                          timeouts := timeouts s0 @ [(1000, GameOver)]\<rparr>
                  else sb\<lparr>playerRef := Some (p0\<lparr>health := H\<rparr>),
                          enemiesRef := enemiesAfterRam p0 (enemiesRef s0),
                          lasersRef := filter (\<lambda>l. \<not> hitsPlayer p0 l) (lasersRef s0)\<rparr>)"
    using playerCollisions_result [OF p0, of env] unfolding H_def by blast
  then have u: "updateAndDraw env deltaTime s =
             Inr (sb\<lparr>playerRef := None,
                     enemiesRef := enemiesAfterRam p0 (enemiesRef s0),
                     lasersRef := filter (\<lambda>l. \<not> hitsPlayer p0 l) (lasersRef s0),
                     timeouts := timeouts s0 @ [(1000, GameOver)]\<rparr>)"
    using dead updateAndDraw_ready [OF assms(1) b] by simp
  define s' where "s' = sb\<lparr>playerRef := None,
                     enemiesRef := enemiesAfterRam p0 (enemiesRef s0),
                     lasersRef := filter (\<lambda>l. \<not> hitsPlayer p0 l) (lasersRef s0),
                     timeouts := timeouts s0 @ [(1000, GameOver)]\<rparr>"
  have g: "gameStatus s' = gameStatus s"
    using addsParticles_frame(5) [OF adb] fr by (simp add: s'_def)
  have tm: "timeouts s' = timeouts s @ [(1000, GameOver)]"
    using fr by (simp add: s'_def)
  have pn: "playerRef s' = None"
    by (simp add: s'_def)
  have "gameStatus (runTimeouts t s') = gameStatus (runTimeouts t s)" if "t < 1000" for t
    using that by (simp add: runTimeouts_def g tm)
  then show ?thesis
    using u pn g tm assms(2) unfolding s'_def [symmetric] by simp
qed

lemma doomedWorld_before:
  "beforePlayerCollisions demoEnv 16 doomedWorld = Inr doomedBefore"
  by (simp add: tick_defs doomedWorld_def doomedBefore_def demo_defs)

theorem player_death_defers_game_over_witness:
  "canvasReady demoEnv \<and> gameStatus doomedWorld = Playing \<and>
   (\<exists>sd p. damageResolved demoEnv 16 doomedWorld = Inr sd \<and> playerRef sd = Some p \<and>
           health p \<le> 0) \<and>
   (\<exists>s'. updateAndDraw demoEnv 16 doomedWorld = Inr s' \<and>
         playerRef s' = None \<and>
         gameStatus s' = Playing \<and>
         timeouts s' = timeouts doomedWorld @ [(1000, GameOver)] \<and>
         (500::real) < 1000 \<and>
         gameStatus (runTimeouts 500 s') = Playing)"
proof -
  have h1: "canvasReady demoEnv"
    by (simp add: demoEnv_def)
  have h2: "gameStatus doomedWorld = Playing"
    by (simp add: doomedWorld_def demoWorld_def)
  define p0 where "p0 = demoPlayer\<lparr>health := 25\<rparr>"
  have p0: "playerRef doomedBefore = Some p0"
    by (simp add: doomedBefore_def p0_def)
  have H: "healthAfterDamage p0 (enemiesRef doomedBefore) (lasersRef doomedBefore) = - 5"
    by (simp add: healthAfterDamage_def hitsPlayer_def checkCollision_squares
        doomedBefore_def p0_def demo_defs)
  obtain sa where "playerDamage demoEnv doomedBefore =
             Inr (sa\<lparr>playerRef := Some (p0\<lparr>health := - 5\<rparr>),
                     enemiesRef := enemiesAfterRam p0 (enemiesRef doomedBefore),
                     lasersRef := filter (\<lambda>l. \<not> hitsPlayer p0 l) (lasersRef doomedBefore)\<rparr>)"
    using playerDamage_result [OF p0, of demoEnv] unfolding H by blast
  then obtain sd where h3: "damageResolved demoEnv 16 doomedWorld = Inr sd"
    and h4: "playerRef sd = Some (p0\<lparr>health := - 5\<rparr>)"
    by (simp add: damageResolved_def doomedWorld_before p0)
  have h5: "health (p0\<lparr>health := - 5\<rparr>) \<le> 0"
    by simp
  have r: "gameStatus (runTimeouts 500 doomedWorld) = Playing"
    by (simp add: runTimeouts_def doomedWorld_def demoWorld_def)
  obtain s' where "updateAndDraw demoEnv 16 doomedWorld = Inr s'"
    and "playerRef s' = None" and "gameStatus s' = Playing"
    and "timeouts s' = timeouts doomedWorld @ [(1000, GameOver)]"
    and "\<forall>t. t < 1000 \<longrightarrow> gameStatus (runTimeouts t s') = gameStatus (runTimeouts t doomedWorld)"
    using player_death_defers_game_over [OF h1 h2 h3 h4 h5] by (elim exE conjE) (rule that)
  moreover from this have "gameStatus (runTimeouts 500 s') = Playing"
    using r by simp
  ultimately show ?thesis
    using h1 h2 h3 h4 h5 by auto
qed

subsection \<open>Pruning of particles and lasers\<close>

lemma fadingWorld_tick: "updateAndDraw demoEnv 16 fadingWorld = Inr fadingAfter"
  by (simp add: updateAndDraw_def tick_defs fadingWorld_def fadingAfter_def demo_defs
      playerCollisions_def playerDamage_def playerDeathCheck_def checkCollision_squares
      power2_eq_square)

lemma playerCollisions_shape:
  "\<exists>s' qs. playerCollisions env s = Inr s' \<and>
           particlesRef s' = particlesRef s @ qs \<and> list_all (\<lambda>p. life p = 1) qs \<and>
           set (lasersRef s') \<subseteq> set (lasersRef s) \<and>
           set (enemiesRef s') \<subseteq> set (enemiesRef s) \<and>
           length (enemiesRef s') \<le> length (enemiesRef s) \<and>
           score s' = score s"
proof (cases "playerRef s")
  case None
  then have "playerCollisions env s = Inr s"
    by (rule playerCollisions_absent)
  moreover have "particlesRef s = particlesRef s @ []" "list_all (\<lambda>p. life p = 1) []"
    by simp_all
  ultimately show ?thesis
    by (metis order_refl subset_refl)
next
  case (Some p)
  define E where "E = enemiesAfterRam p (enemiesRef s)"
  define L where "L = filter (\<lambda>l. \<not> hitsPlayer p l) (lasersRef s)"
  define H where "H = healthAfterDamage p (enemiesRef s) (lasersRef s)"
  obtain sa where ad: "addsParticles s sa"
    and r: "playerCollisions env s =
             Inr (if H \<le> 0
                  then sa\<lparr>playerRef := None, enemiesRef := E, lasersRef := L,
                          timeouts := timeouts s @ [(1000, GameOver)]\<rparr>
                  else sa\<lparr>playerRef := Some (p\<lparr>health := H\<rparr>), enemiesRef := E, lasersRef := L\<rparr>)"
    using playerCollisions_result [OF Some, of env] unfolding E_def L_def H_def by blast
  define s' where "s' = (if H \<le> 0
                  then sa\<lparr>playerRef := None, enemiesRef := E, lasersRef := L,
                          timeouts := timeouts s @ [(1000, GameOver)]\<rparr>
                  else sa\<lparr>playerRef := Some (p\<lparr>health := H\<rparr>), enemiesRef := E, lasersRef := L\<rparr>)"
  obtain qs where qs: "particlesRef sa = particlesRef s @ qs" "list_all (\<lambda>p. life p = 1) qs"
    using addsParticles_particles [OF ad] by blast
  have f: "particlesRef s' = particlesRef sa" "lasersRef s' = L" "enemiesRef s' = E"
    "score s' = score sa"
    by (simp_all add: s'_def)
  have "set E \<subseteq> set (enemiesRef s)" "length E \<le> length (enemiesRef s)"
    by (auto simp add: E_def enemiesAfterRam_def split: option.splits)
  moreover have "set L \<subseteq> set (lasersRef s)"
    by (auto simp add: L_def)
  moreover have "score sa = score s"
    using addsParticles_frame(4) [OF ad] .
  ultimately show ?thesis
    using r qs f unfolding s'_def [symmetric] by metis
qed

lemma updateParticle_life [simp]:
  "life (updateParticle deltaTime w h p) = life p - deltaTime / 1000"
  by (simp add: updateParticle_def updatePosition_def Let_def)

lemma updateAndDraw_shape:
  assumes "canvasReady env"
  shows "\<exists>s1 s' qs. updatePlayer env (width s) (height s) s = Inr s1 \<and>
           updateAndDraw env deltaTime s = Inr s' \<and>
           particlesRef s' =
             map (updateParticle deltaTime (width s) (height s))
               (filter (\<lambda>p. life p > 0) (particlesRef s1)) @ qs \<and>
           list_all (\<lambda>p. life p = 1) qs \<and>
           set (lasersRef s') \<subseteq>
             updatePosition (width s) (height s) `
               {l \<in> set (lasersRef s1). inViewport (width s) (height s) l} \<union>
             {l. isEnemyShot env l}"
proof -
  define w where "w = width s"
  define h where "h = height s"
  obtain s1 s3 where s1: "updatePlayer env w h s = Inr s1"
    and s3: "enemyAI env (enemiesRef (moveAndSpawn env deltaTime w h s1))
             (moveAndSpawn env deltaTime w h s1) = Inr s3"
    and b: "beforePlayerCollisions env deltaTime s = Inr (enemyCollisions env s3)"
    using beforePlayerCollisions_decomp [of env s deltaTime] unfolding w_def h_def by blast
  define s2 where "s2 = moveAndSpawn env deltaTime w h s1"
  obtain new k where "enemyAI env (enemiesRef s2) s2 =
      Inr (s2\<lparr>lasersRef := lasersRef s2 @ new, randomCalls := k\<rparr>)"
    and new: "list_all (isEnemyShot env) new"
    using enemyAI_result [of env "enemiesRef s2" s2] by (elim exE conjE) (rule that)
  then have s3eq: "s3 = s2\<lparr>lasersRef := lasersRef s2 @ new, randomCalls := k\<rparr>"
    using s3 by (simp add: s2_def)
  have p3: "particlesRef s3 = map (updateParticle deltaTime w h) (filter (\<lambda>p. life p > 0) (particlesRef s1))"
    by (simp add: s3eq s2_def moveAndSpawn_frame)
  have l3: "lasersRef s3 = map (updatePosition w h) (filter (inViewport w h) (lasersRef s1)) @ new"
    by (simp add: s3eq s2_def moveAndSpawn_frame)
  define s4 where "s4 = enemyCollisions env s3"
  obtain sa where r4: "s4 =
          sa\<lparr>enemiesRef := sweepSurvivors (sweep (enemiesRef s3) (lasersRef s3)),
             lasersRef := sweepLasers (enemiesRef s3) (lasersRef s3),
             score := score s3 + sweepScore (sweep (enemiesRef s3) (lasersRef s3))\<rparr>"
    and ad4: "addsParticles s3 sa"
    using enemyCollisions_result [of env s3] unfolding s4_def by blast
  obtain ps where ps: "particlesRef sa = particlesRef s3 @ ps" "list_all (\<lambda>p. life p = 1) ps"
    using addsParticles_particles [OF ad4] by blast
  have p4: "particlesRef s4 = particlesRef s3 @ ps"
    by (simp add: r4 ps)
  have l4: "set (lasersRef s4) \<subseteq> set (lasersRef s3)"
    using sweepLasers_subset by (simp add: r4)
  obtain s' qs where r5: "playerCollisions env s4 = Inr s'"
    and p5: "particlesRef s' = particlesRef s4 @ qs" "list_all (\<lambda>p. life p = 1) qs"
    and l5: "set (lasersRef s') \<subseteq> set (lasersRef s4)"
    using playerCollisions_shape [of env s4] by blast
  have u: "updateAndDraw env deltaTime s = Inr s'"
    using updateAndDraw_ready [OF assms b] r5 by (simp add: s4_def)
  have pf: "particlesRef s' =
             map (updateParticle deltaTime w h) (filter (\<lambda>p. life p > 0) (particlesRef s1)) @ (ps @ qs)"
    by (simp add: p5 p4 p3)
  have pl: "list_all (\<lambda>p. life p = 1) (ps @ qs)"
    using ps p5 by simp
  have "set (lasersRef s3) \<subseteq>
          updatePosition w h ` {l \<in> set (lasersRef s1). inViewport w h l} \<union> {l. isEnemyShot env l}"
    using new by (auto simp add: l3 list_all_iff)
  then have lf: "set (lasersRef s') \<subseteq>
          updatePosition w h ` {l \<in> set (lasersRef s1). inViewport w h l} \<union> {l. isEnemyShot env l}"
    using l4 l5 by blast
  show ?thesis
    using s1 u pf pl lf unfolding w_def h_def by blast
qed

text \<open>
  Claim C1, amended. The filters run at the start of the laser and particle updates, before
  the motion and the ageing, not at the end of the tick. So at the end of a tick every
  particle in the collection has a life above \<open>- deltaTime / 1000\<close>: its life was positive
  when the filter ran, or it was created later in the tick with a life of 1. And every laser
  in the collection is the result of one motion step from a position strictly inside the
  viewport, or is an enemy laser fired during the tick.
\<close>

theorem entities_pruned_before_update:
  assumes "canvasReady env" and "0 \<le> deltaTime"
  shows "\<exists>s'. updateAndDraw env deltaTime s = Inr s' \<and>
           list_all (\<lambda>p. - deltaTime / 1000 < life p) (particlesRef s') \<and>
           list_all (\<lambda>l. (\<exists>l0. inViewport (width s) (height s) l0 \<and>
                              l = updatePosition (width s) (height s) l0) \<or>
                         isEnemyShot env l) (lasersRef s')"
proof -
  obtain s1 s' qs where "updatePlayer env (width s) (height s) s = Inr s1"
    and u: "updateAndDraw env deltaTime s = Inr s'"
    and p: "particlesRef s' =
             map (updateParticle deltaTime (width s) (height s))
               (filter (\<lambda>p. life p > 0) (particlesRef s1)) @ qs"
    and q: "list_all (\<lambda>p. life p = 1) qs"
    and l: "set (lasersRef s') \<subseteq>
             updatePosition (width s) (height s) `
               {l \<in> set (lasersRef s1). inViewport (width s) (height s) l} \<union>
             {l. isEnemyShot env l}"
    using updateAndDraw_shape [OF assms(1), of s deltaTime] by (elim exE conjE) (rule that)
  have "list_all (\<lambda>p. - deltaTime / 1000 < life p) qs"
    using q assms(2) by (auto simp add: list_all_iff intro: less_le_trans [of _ 0])
  moreover have "list_all (\<lambda>p. - deltaTime / 1000 < life p)
      (map (updateParticle deltaTime (width s) (height s))
               (filter (\<lambda>p. life p > 0) (particlesRef s1)))"
    by (auto simp add: list_all_iff)
  ultimately have c1: "list_all (\<lambda>p. - deltaTime / 1000 < life p) (particlesRef s')"
    by (simp add: p)
  have c2: "list_all (\<lambda>l. (\<exists>l0. inViewport (width s) (height s) l0 \<and>
                              l = updatePosition (width s) (height s) l0) \<or>
                         isEnemyShot env l) (lasersRef s')"
    unfolding list_all_iff
  proof
    fix x assume "x \<in> set (lasersRef s')"
    then have "x \<in> updatePosition (width s) (height s) `
               {l \<in> set (lasersRef s1). inViewport (width s) (height s) l} \<union>
             {l. isEnemyShot env l}"
      using l by blast
    then show "(\<exists>l0. inViewport (width s) (height s) l0 \<and>
                    x = updatePosition (width s) (height s) l0) \<or> isEnemyShot env x"
      by auto
  qed
  show ?thesis
    using u c1 c2 by blast
qed

theorem entities_pruned_before_update_witness:
  "canvasReady demoEnv \<and> (0::real) \<le> 16 \<and>
   (\<exists>s'. updateAndDraw demoEnv 16 fadingWorld = Inr s' \<and>
           list_all (\<lambda>p. - 16 / 1000 < life p) (particlesRef s') \<and>
           list_all (\<lambda>l. (\<exists>l0. inViewport (width fadingWorld) (height fadingWorld) l0 \<and>
                              l = updatePosition (width fadingWorld) (height fadingWorld) l0) \<or>
                         isEnemyShot demoEnv l) (lasersRef s'))"
proof -
  have h1: "canvasReady demoEnv"
    by (simp add: demoEnv_def)
  have h2: "(0::real) \<le> 16"
    by simp
  show ?thesis
    using h1 h2 entities_pruned_before_update [OF h1 h2, of fadingWorld] by blast
qed

text \<open>
  Claim C1 as it is stated, that no particle with a life of at most 0 and no laser outside
  the viewport is in its collection at the end of a tick, fails on the tick above: the
  spark ends the tick with a life of -0.006 and the laser at \<open>x = 800.5\<close> in a viewport 800
  wide, and both stay in their collections until the filters of the next tick.
\<close>

theorem expired_entities_survive_tick:
  "updateAndDraw demoEnv 16 fadingWorld = Inr fadingAfter \<and>
   \<not> noExpiredParticles fadingAfter \<and> \<not> noStrayLasers fadingAfter"
  by (simp add: fadingWorld_tick) (simp add: noExpiredParticles_def noStrayLasers_def fadingAfter_def)

subsection \<open>The spawner\<close>

lemma spawnEnemy_enemies:
  "\<exists>new. enemiesRef (spawnEnemy env w h s) =
           enemiesRef s @ (if real (length (enemiesRef s)) < spawnCap s then [new] else []) \<and>
         (randomInRange env \<longrightarrow> 0 \<le> emaxHealth new)"
proof (cases "real (length (enemiesRef s)) < spawnCap s")
  case False
  have "emaxHealth (undefined\<lparr>emaxHealth := 0\<rparr> :: Enemy) = 0"
    by simp
  then have "\<exists>new :: Enemy. 0 \<le> emaxHealth new"
    by (metis order_refl)
  then show ?thesis
    using False by (simp add: spawnEnemy_def spawnCap_def)
next
  case True
  define k where "k = randomCalls s"
  define radius0 where "radius0 = randomBetween (mathRandom env (k + 1)) 15 40"
  define choice where "choice =
               (if score s > 1000 \<and> mathRandom env k > 0.95 then (Mothership, 60, 50)
                else if score s > 200 \<and> mathRandom env k > 0.7 then (Saucer, 20, 10)
                else (Meteor, radius0, radius0 / 2))"
  have hp: "randomInRange env \<longrightarrow> 0 \<le> snd (snd choice)"
  proof
    assume "randomInRange env"
    then have "0 \<le> mathRandom env (k + 1)"
      by (simp add: randomInRange_def)
    then have "0 \<le> radius0"
      by (simp add: radius0_def randomBetween_def)
    then show "0 \<le> snd (snd choice)"
      by (simp add: choice_def)
  qed
  have "\<exists>new. enemiesRef (spawnEnemy env w h s) = enemiesRef s @ [new] \<and>
              emaxHealth new = snd (snd choice)"
    using True
    by (simp add: spawnEnemy_def spawnCap_def Let_def split_def choice_def radius0_def k_def)
  then show ?thesis
    using True hp by auto
qed

lemma spawnEnemy_score [simp]: "score (spawnEnemy env w h s) = score s"
  by (simp add: spawnEnemy_def Let_def split_def)

lemma spawnCap_cong: "score s' = score s \<Longrightarrow> spawnCap s' = spawnCap s"
  by (simp add: spawnCap_def)

lemma spawnCap_mono: "score s \<le> score s' \<Longrightarrow> spawnCap s \<le> spawnCap s'"
proof -
  assume "score s \<le> score s'"
  then have "score s / 500 \<le> score s' / 500" by simp
  then have "\<lfloor>score s / 500\<rfloor> \<le> \<lfloor>score s' / 500\<rfloor>" by (rule floor_mono)
  then show ?thesis by (simp add: spawnCap_def)
qed

lemma below_cap_succ:
  assumes "real n < spawnCap s"
  shows "real (n + 1) \<le> spawnCap s"
proof -
  have "real n < real_of_int (5 + \<lfloor>score s / 500\<rfloor>)"
    using assms by (simp add: spawnCap_def)
  then have "int n < 5 + \<lfloor>score s / 500\<rfloor>"
    by (metis of_int_less_iff of_int_of_nat_eq)
  then have "int (n + 1) \<le> 5 + \<lfloor>score s / 500\<rfloor>"
    by simp
  then have "real_of_int (int (n + 1)) \<le> real_of_int (5 + \<lfloor>score s / 500\<rfloor>)"
    by (rule iffD2 [OF of_int_le_iff])
  then show ?thesis
    by (simp add: spawnCap_def)
qed

lemma updateEnemy_emaxHealth [simp]: "emaxHealth (updateEnemy w h e) = emaxHealth e"
  by (simp add: updateEnemy_def updatePosition_def Let_def split: EnemyType.splits)

lemma moveAndSpawn_enemies:
  "\<exists>new. enemiesRef (moveAndSpawn env deltaTime w h s) =
           map (updateEnemy w h) (enemiesRef s) @
             (if real (length (enemiesRef s)) < spawnCap s then [new] else []) \<and>
         (randomInRange env \<longrightarrow> 0 \<le> emaxHealth new)"
proof -
  define s2 where "s2 = updateEnemies w h (updateParticles deltaTime w h (updateLasers w h s))"
  have e2: "enemiesRef s2 = map (updateEnemy w h) (enemiesRef s)" and c2: "score s2 = score s"
    by (simp_all add: s2_def updateEnemies_def updateParticles_def updateLasers_def)
  have cap: "spawnCap s2 = spawnCap s"
    using c2 by (rule spawnCap_cong)
  show ?thesis
    using spawnEnemy_enemies [of env w h s2]
    by (simp add: moveAndSpawn_def s2_def [symmetric] e2 cap)
qed

lemma sweep_survivors_bound:
  "length (sweepSurvivors (sweep es ls)) \<le> length es"
proof -
  have "length (sweep es ls) = length es"
    by (induction es arbitrary: ls) (simp_all add: Let_def)
  moreover have "length (sweepSurvivors (sweep es ls)) \<le> length (sweep es ls)"
    by (simp add: sweepSurvivors_def)
  ultimately show ?thesis by simp
qed

lemma sweep_nonneg:
  assumes "list_all (\<lambda>e. 0 \<le> emaxHealth e) es"
  shows "list_all (\<lambda>e. 0 \<le> emaxHealth e) (sweepSurvivors (sweep es ls)) \<and>
         0 \<le> sweepScore (sweep es ls)"
  using assms
proof (induction es arbitrary: ls)
  case Nil
  show ?case by (simp add: sweepSurvivors_def sweepScore_def)
next
  case (Cons e es)
  define ls' where "ls' = filter (\<lambda>l. \<not> hitBy e l) ls"
  have ih: "list_all (\<lambda>e. 0 \<le> emaxHealth e) (sweepSurvivors (sweep es ls'))"
    "0 \<le> sweepScore (sweep es ls')"
    using Cons.IH [of ls'] Cons.prems by simp_all
  have e0: "0 \<le> emaxHealth e"
    using Cons.prems by simp
  then have "0 \<le> emaxHealth e * 5" by simp
  then have fl: "0 \<le> \<lfloor>emaxHealth e * 5\<rfloor>" by simp
  show ?case
    using ih e0 fl
    by (simp add: Let_def sweepSurvivors_def sweepScore_def ls'_def [symmetric])
qed

lemma updateAndDraw_enemies:
  assumes "canvasReady env"
  shows "\<exists>s'. updateAndDraw env deltaTime s = Inr s' \<and>
           length (enemiesRef s') \<le> length (enemiesRef s) + 1 \<and>
           (capInv s \<and> randomInRange env \<longrightarrow> capInv s')"
proof -
  define w where "w = width s"
  define h where "h = height s"
  obtain s1 s3 where s1: "updatePlayer env w h s = Inr s1"
    and s3: "enemyAI env (enemiesRef (moveAndSpawn env deltaTime w h s1))
             (moveAndSpawn env deltaTime w h s1) = Inr s3"
    and b: "beforePlayerCollisions env deltaTime s = Inr (enemyCollisions env s3)"
    using beforePlayerCollisions_decomp [of env s deltaTime] unfolding w_def h_def by blast
  have f1: "enemiesRef s1 = enemiesRef s" "score s1 = score s"
    using updatePlayer_result [of env w h s] s1 by auto
  define s2 where "s2 = moveAndSpawn env deltaTime w h s1"
  have sc2: "score s2 = score s"
    by (simp add: s2_def moveAndSpawn_frame f1)
  obtain new where e2: "enemiesRef s2 = map (updateEnemy w h) (enemiesRef s) @
             (if real (length (enemiesRef s)) < spawnCap s then [new] else [])"
    and n2: "randomInRange env \<longrightarrow> 0 \<le> emaxHealth new"
    using moveAndSpawn_enemies [of env deltaTime w h s1] spawnCap_cong [OF f1(2)]
    unfolding s2_def f1 by auto
  have len2: "length (enemiesRef s2) \<le> length (enemiesRef s) + 1"
    by (simp add: e2)
  have cap2: "real (length (enemiesRef s2)) \<le> spawnCap s" if "real (length (enemiesRef s)) \<le> spawnCap s"
  proof (cases "real (length (enemiesRef s)) < spawnCap s")
    case True
    then show ?thesis
      using below_cap_succ [OF True] by (simp add: e2)
  next
    case False
    then show ?thesis
      using that by (simp add: e2)
  qed
  have nn2: "list_all (\<lambda>e. 0 \<le> emaxHealth e) (enemiesRef s2)"
    if "list_all (\<lambda>e. 0 \<le> emaxHealth e) (enemiesRef s)" and "randomInRange env"
    using that n2 by (auto simp add: e2 list_all_iff)
  obtain new' k where "enemyAI env (enemiesRef s2) s2 =
      Inr (s2\<lparr>lasersRef := lasersRef s2 @ new', randomCalls := k\<rparr>)"
    using enemyAI_result [of env "enemiesRef s2" s2] by blast
  then have s3eq: "s3 = s2\<lparr>lasersRef := lasersRef s2 @ new', randomCalls := k\<rparr>"
    using s3 by (simp add: s2_def)
  have f3: "enemiesRef s3 = enemiesRef s2" "score s3 = score s"
    by (simp_all add: s3eq sc2)
  define s4 where "s4 = enemyCollisions env s3"
  define r where "r = sweep (enemiesRef s3) (lasersRef s3)"
  obtain sa where r4: "s4 =
          sa\<lparr>enemiesRef := sweepSurvivors r,
             lasersRef := sweepLasers (enemiesRef s3) (lasersRef s3),
             score := score s3 + sweepScore r\<rparr>"
    using enemyCollisions_result [of env s3] unfolding s4_def r_def by blast
  have e4: "enemiesRef s4 = sweepSurvivors r" and sc4: "score s4 = score s + sweepScore r"
    by (simp_all add: r4 f3)
  have len4: "length (enemiesRef s4) \<le> length (enemiesRef s2)"
    unfolding e4 r_def f3 by (rule sweep_survivors_bound)
  obtain s' where r5: "playerCollisions env s4 = Inr s'"
    and sub5: "set (enemiesRef s') \<subseteq> set (enemiesRef s4)"
    and len5: "length (enemiesRef s') \<le> length (enemiesRef s4)"
    and sc5: "score s' = score s4"
    using playerCollisions_shape [of env s4] by blast
  have u: "updateAndDraw env deltaTime s = Inr s'"
    using updateAndDraw_ready [OF assms b] r5 by (simp add: s4_def)
  have c1: "length (enemiesRef s') \<le> length (enemiesRef s) + 1"
    using len5 len4 len2 by linarith
  have c2: "capInv s'" if inv: "capInv s" and rnd: "randomInRange env"
  proof -
    have a: "real (length (enemiesRef s)) \<le> spawnCap s"
      and bb: "list_all (\<lambda>e. 0 \<le> emaxHealth e) (enemiesRef s)"
      using inv by (simp_all add: capInv_def)
    have nn: "list_all (\<lambda>e. 0 \<le> emaxHealth e) (enemiesRef s3)"
      using nn2 [OF bb rnd] by (simp add: f3)
    have sw: "list_all (\<lambda>e. 0 \<le> emaxHealth e) (sweepSurvivors r)" "0 \<le> sweepScore r"
      using sweep_nonneg [OF nn, of "lasersRef s3"] by (simp_all add: r_def)
    have "score s \<le> score s'"
      using sw(2) by (simp add: sc5 sc4)
    then have "spawnCap s \<le> spawnCap s'"
      by (rule spawnCap_mono)
    moreover have "real (length (enemiesRef s')) \<le> real (length (enemiesRef s2))"
      using len5 len4 by simp
    ultimately have "real (length (enemiesRef s')) \<le> spawnCap s'"
      using cap2 [OF a] by linarith
    moreover have "list_all (\<lambda>e. 0 \<le> emaxHealth e) (enemiesRef s')"
      using sw(1) sub5 by (auto simp add: list_all_iff e4)
    ultimately show ?thesis
      by (simp add: capInv_def)
  qed
  show ?thesis
    using u c1 c2 by blast
qed

lemma moveAndSpawn_within_cap:
  assumes "real (length (enemiesRef s)) \<le> spawnCap s"
  shows "real (length (enemiesRef (moveAndSpawn env deltaTime w h s)))
           \<le> spawnCap (moveAndSpawn env deltaTime w h s)"
proof -
  obtain new where e: "enemiesRef (moveAndSpawn env deltaTime w h s) =
           map (updateEnemy w h) (enemiesRef s) @
             (if real (length (enemiesRef s)) < spawnCap s then [new] else [])"
    using moveAndSpawn_enemies [of env deltaTime w h s] by blast
  have cap: "spawnCap (moveAndSpawn env deltaTime w h s) = spawnCap s"
    by (rule spawnCap_cong) (simp add: moveAndSpawn_frame)
  show ?thesis
  proof (cases "real (length (enemiesRef s)) < spawnCap s")
    case True
    then show ?thesis
      using below_cap_succ [OF True] by (simp add: e cap)
  next
    case False
    then show ?thesis
      using assms by (simp add: e cap)
  qed
qed

text \<open>
  Claim C5. The spawner takes one decision per tick: it adds one enemy when the number of
  enemies is strictly below \<open>5 + \<lfloor>score / 500\<rfloor>\<close> and none otherwise, and it leaves the score
  as it is; so a collection within the cap before the decision is within the cap after it,
  for the spawner alone and at the point of a tick where it runs. Over a whole tick at most
  one enemy is added. The cap holds throughout a game: it holds after a reset, and a tick
  whose random numbers lie in \<open>[0, 1)\<close> keeps the enemies within the cap of the score it ends
  with (no enemy has a negative \<^verbatim>\<open>maxHealth\<close>, so the score does not go down).
\<close>

theorem spawn_within_cap:
  "length (enemiesRef (spawnEnemy env w h s)) =
     (if real (length (enemiesRef s)) < 5 + of_int \<lfloor>score s / 500\<rfloor>
      then length (enemiesRef s) + 1 else length (enemiesRef s)) \<and>
   score (spawnEnemy env w h s) = score s \<and>
   (real (length (enemiesRef s)) \<le> 5 + of_int \<lfloor>score s / 500\<rfloor> \<longrightarrow>
      real (length (enemiesRef (spawnEnemy env w h s)))
        \<le> 5 + of_int \<lfloor>score (spawnEnemy env w h s) / 500\<rfloor>) \<and>
   (\<exists>s1. updatePlayer env (width s) (height s) s = Inr s1 \<and>
         (real (length (enemiesRef s)) \<le> 5 + of_int \<lfloor>score s / 500\<rfloor> \<longrightarrow>
            real (length (enemiesRef (moveAndSpawn env deltaTime (width s) (height s) s1)))
              \<le> 5 + of_int \<lfloor>score (moveAndSpawn env deltaTime (width s) (height s) s1) / 500\<rfloor>)) \<and>
   (\<exists>s'. updateAndDraw env deltaTime s = Inr s' \<and>
         length (enemiesRef s') \<le> length (enemiesRef s) + 1 \<and>
         (capInv s \<and> randomInRange env \<longrightarrow> capInv s')) \<and>
   capInv (resetGame s)"
proof -
  obtain new where e: "enemiesRef (spawnEnemy env w h s) =
           enemiesRef s @ (if real (length (enemiesRef s)) < spawnCap s then [new] else [])"
    using spawnEnemy_enemies [of env w h s] by blast
  have c1: "length (enemiesRef (spawnEnemy env w h s)) =
     (if real (length (enemiesRef s)) < 5 + of_int \<lfloor>score s / 500\<rfloor>
      then length (enemiesRef s) + 1 else length (enemiesRef s))"
    by (simp add: e) (simp add: spawnCap_def)
  have c3: "real (length (enemiesRef (spawnEnemy env w h s)))
        \<le> 5 + of_int \<lfloor>score (spawnEnemy env w h s) / 500\<rfloor>"
    if a: "real (length (enemiesRef s)) \<le> 5 + of_int \<lfloor>score s / 500\<rfloor>"
  proof (cases "real (length (enemiesRef s)) < spawnCap s")
    case True
    have "real (length (enemiesRef (spawnEnemy env w h s))) = real (length (enemiesRef s) + 1)"
      using True by (simp add: e)
    then show ?thesis
      using below_cap_succ [OF True] by (simp add: spawnCap_def)
  next
    case False
    then show ?thesis
      using a by (simp add: e)
  qed
  obtain s1 where s1: "updatePlayer env (width s) (height s) s = Inr s1"
    and f1: "enemiesRef s1 = enemiesRef s" "score s1 = score s"
    using updatePlayer_result [of env "width s" "height s" s] by blast
  have "real (length (enemiesRef (moveAndSpawn env deltaTime (width s) (height s) s1)))
              \<le> 5 + of_int \<lfloor>score (moveAndSpawn env deltaTime (width s) (height s) s1) / 500\<rfloor>"
    if a: "real (length (enemiesRef s)) \<le> 5 + of_int \<lfloor>score s / 500\<rfloor>"
  proof -
    have "real (length (enemiesRef s1)) \<le> spawnCap s1"
      using a by (simp add: f1 spawnCap_def)
    then show ?thesis
      using moveAndSpawn_within_cap [of s1 env deltaTime "width s" "height s"]
      by (simp add: spawnCap_def)
  qed
  then have c3': "\<exists>s1. updatePlayer env (width s) (height s) s = Inr s1 \<and>
         (real (length (enemiesRef s)) \<le> 5 + of_int \<lfloor>score s / 500\<rfloor> \<longrightarrow>
            real (length (enemiesRef (moveAndSpawn env deltaTime (width s) (height s) s1)))
              \<le> 5 + of_int \<lfloor>score (moveAndSpawn env deltaTime (width s) (height s) s1) / 500\<rfloor>)"
    using s1 by blast
  have c4: "\<exists>s'. updateAndDraw env deltaTime s = Inr s' \<and>
         length (enemiesRef s') \<le> length (enemiesRef s) + 1 \<and>
         (capInv s \<and> randomInRange env \<longrightarrow> capInv s')"
  proof (cases "canvasReady env")
    case True
    then show ?thesis by (rule updateAndDraw_enemies)
  next
    case False
    then have "updateAndDraw env deltaTime s = Inr s"
      by (simp add: updateAndDraw_def)
    then show ?thesis by simp
  qed
  have c5: "capInv (resetGame s)"
    by (simp add: capInv_def resetGame_def spawnCap_def)
  show ?thesis
    using c1 c3 c3' c4 c5 by simp
qed

theorem spawn_within_cap_witness:
  "real (length (enemiesRef demoWorld)) \<le> 5 + of_int \<lfloor>score demoWorld / 500\<rfloor> \<and>
   capInv demoWorld \<and> randomInRange demoEnv \<and>
   length (enemiesRef (spawnEnemy demoEnv 800 600 demoWorld)) = 3 \<and>
   real (length (enemiesRef (spawnEnemy demoEnv 800 600 demoWorld)))
        \<le> 5 + of_int \<lfloor>score (spawnEnemy demoEnv 800 600 demoWorld) / 500\<rfloor> \<and>
   (\<exists>s1. updatePlayer demoEnv (width demoWorld) (height demoWorld) demoWorld = Inr s1 \<and>
         real (length (enemiesRef
                 (moveAndSpawn demoEnv 16 (width demoWorld) (height demoWorld) s1)))
           \<le> 5 + of_int \<lfloor>score (moveAndSpawn demoEnv 16 (width demoWorld) (height demoWorld) s1)
                            / 500\<rfloor>) \<and>
   (\<exists>s'. updateAndDraw demoEnv 16 demoWorld = Inr s' \<and>
         length (enemiesRef s') \<le> length (enemiesRef demoWorld) + 1 \<and>
         capInv s')"
proof -
  have h1: "real (length (enemiesRef demoWorld)) \<le> 5 + of_int \<lfloor>score demoWorld / 500\<rfloor>"
    by (simp add: demoWorld_def)
  have h2: "capInv demoWorld"
    by (simp add: capInv_def spawnCap_def demoWorld_def demoMeteor_def)
  have h3: "randomInRange demoEnv"
    by (simp add: randomInRange_def demoEnv_def)
  have h4: "length (enemiesRef demoWorld) = 2" "score demoWorld = 0"
    by (simp_all add: demoWorld_def)
  show ?thesis
    using h1 h2 h3 spawn_within_cap [of demoEnv 800 600 demoWorld 16]
    by (auto simp add: h4)
qed

subsection \<open>The wrap range over a tick\<close>




lemma updateEnemy_radius [simp]: "radius (updateEnemy w h e) = radius e"
  by (simp add: updateEnemy_def Let_def split: EnemyType.splits)



lemma updateParticle_fields [simp]:
  "startSize (updateParticle deltaTime w h q) = startSize q"
  "maxLife (updateParticle deltaTime w h q) = maxLife q"
  "radius (updateParticle deltaTime w h q) =
     startSize q * ((life q - deltaTime / 1000) / maxLife q)"
  by (simp_all add: updateParticle_def updatePosition_def Let_def)




















subsection \<open>Wrap range: the claim\<close>




end
